theory Spec2Isabelle
  imports Complex_Main "HOL-Library.Log_Nat"
begin

section \<open>Strings of the host language\<close>

text \<open>
  A source string is a sequence of UTF-16 code units. It is modelled as a \<open>string\<close>
  whose characters are the code units \<open>0x00 .. 0xFF\<close> (Latin-1), one \<open>char\<close> per code
  unit, so \<open>length\<close> is the source's \<open>.length\<close>. Code units above \<open>0xFF\<close> are outside
  the model: the character classes below are the restrictions of the source's classes
  to this range (so the apostrophe \<open>U+2019\<close> and the dash \<open>U+2013\<close> of two patterns
  have no counterpart here).
\<close>

definition is_space :: "char \<Rightarrow> bool" where
  \<comment> \<open>\<open>\s\<close> and the characters removed by \<open>trim()\<close>: TAB, LF, VT, FF, CR, SP, NBSP\<close>
  "is_space c = (c \<in> set [CHR 0x09, CHR 0x0A, CHR 0x0B, CHR 0x0C, CHR 0x0D, CHR 0x20, CHR 0xA0])"

definition is_digit :: "char \<Rightarrow> bool" where
  \<comment> \<open>\<open>\d\<close>\<close>
  "is_digit c = (c \<in> set ''0123456789'')"

definition is_letter :: "char \<Rightarrow> bool" where
  \<comment> \<open>\<open>\p{L}\<close>: A-Z, a-z, the two ordinal indicators, the micro sign, and the accented letters\<close>
  "is_letter c =
    (let n = (of_char c :: int)
     in (65 \<le> n \<and> n \<le> 90) \<or> (97 \<le> n \<and> n \<le> 122) \<or> n = 170 \<or> n = 181 \<or> n = 186 \<or>
        (192 \<le> n \<and> n \<le> 214) \<or> (216 \<le> n \<and> n \<le> 246) \<or> (248 \<le> n \<and> n \<le> 255))"

definition trim :: "string \<Rightarrow> string" where
  "trim s = rev (dropWhile is_space (rev (dropWhile is_space s)))"

definition set_bit5 :: "char \<Rightarrow> char" where
  \<comment> \<open>the code unit plus 32, for a code unit whose bit 5 is clear\<close>
  "set_bit5 c = (case c of Char b0 b1 b2 b3 b4 b5 b6 b7 \<Rightarrow> Char b0 b1 b2 b3 b4 True b6 b7)"

definition clear_bit5 :: "char \<Rightarrow> char" where
  \<comment> \<open>the code unit minus 32, for a code unit whose bit 5 is set\<close>
  "clear_bit5 c = (case c of Char b0 b1 b2 b3 b4 b5 b6 b7 \<Rightarrow> Char b0 b1 b2 b3 b4 False b6 b7)"

definition toLowerCase_char :: "char \<Rightarrow> char" where
  \<comment> \<open>A-Z and the upper-case accented letters \<open>0xC0 .. 0xDE\<close> (not the multiplication sign)
     move up by 32\<close>
  "toLowerCase_char c =
    (let n = (of_char c :: int)
     in if (65 \<le> n \<and> n \<le> 90) \<or> (192 \<le> n \<and> n \<le> 222 \<and> n \<noteq> 215) then set_bit5 c else c)"

definition toLowerCase :: "string \<Rightarrow> string" where
  "toLowerCase s = map toLowerCase_char s"

fun str_includes :: "string \<Rightarrow> string \<Rightarrow> bool" where
  \<comment> \<open>\<open>s.includes(k)\<close>\<close>
  "str_includes [] k = (k = [])"
| "str_includes (c # s) k = (take (length k) (c # s) = k \<or> str_includes s k)"

fun join :: "string \<Rightarrow> string list \<Rightarrow> string" where
  "join sep [] = []"
| "join sep [x] = x"
| "join sep (x # y # ys) = x @ sep @ join sep (y # ys)"

fun replace_char :: "char \<Rightarrow> string \<Rightarrow> string \<Rightarrow> string" where
  \<comment> \<open>\<open>s.replace(c, new)\<close> with a one-character string pattern: the first occurrence only\<close>
  "replace_char c new [] = []"
| "replace_char c new (x # xs) = (if x = c then new @ xs else x # replace_char c new xs)"

definition remove_all :: "(char \<Rightarrow> bool) \<Rightarrow> string \<Rightarrow> string" where
  \<comment> \<open>\<open>s.replace(/[...]/g, "")\<close> for a one-character class\<close>
  "remove_all P s = filter (\<lambda>c. \<not> P c) s"

fun replace_runs :: "(char \<Rightarrow> bool) \<Rightarrow> string \<Rightarrow> string \<Rightarrow> string" where
  \<comment> \<open>\<open>s.replace(/[...]+/g, new)\<close>: every maximal run of class characters becomes \<open>new\<close>\<close>
  "replace_runs P new [] = []"
| "replace_runs P new [c] = (if P c then new else [c])"
| "replace_runs P new (c # d # s) =
     (if P c then (if P d then replace_runs P new (d # s) else new @ replace_runs P new (d # s))
      else c # replace_runs P new (d # s))"

definition strip_trailing :: "(char \<Rightarrow> bool) \<Rightarrow> string \<Rightarrow> string" where
  \<comment> \<open>\<open>s.replace(/[...]+$/, "")\<close>\<close>
  "strip_trailing P s = rev (dropWhile P (rev s))"

fun split_lines :: "string \<Rightarrow> string \<Rightarrow> string list" where
  \<comment> \<open>\<open>s.split(/\r?\n/)\<close>, with the piece read so far as first argument\<close>
  "split_lines acc [] = [acc]"
| "split_lines acc (c # s) =
     (if c = CHR 0x0A
      then (if acc \<noteq> [] \<and> last acc = CHR 0x0D then butlast acc else acc) # split_lines [] s
      else split_lines (acc @ [c]) s)"

fun split_runs :: "(char \<Rightarrow> bool) \<Rightarrow> string \<Rightarrow> string \<Rightarrow> string list" where
  \<comment> \<open>\<open>s.split(/[...]+/)\<close>: the pieces between maximal runs of separator characters\<close>
  "split_runs P acc [] = [acc]"
| "split_runs P acc [c] = (if P c then [acc, []] else [acc @ [c]])"
| "split_runs P acc (c # d # s) =
     (if P c then (if P d then split_runs P acc (d # s) else acc # split_runs P [] (d # s))
      else split_runs P (acc @ [c]) (d # s))"

definition digit_val :: "char \<Rightarrow> int" where
  "digit_val c = of_char c - 48"

definition digits_val :: "string \<Rightarrow> int" where
  \<comment> \<open>the decimal value of a string of digits\<close>
  "digits_val ds = foldl (\<lambda>a c. 10 * a + digit_val c) 0 ds"

function string_of_int :: "int \<Rightarrow> string" where
  \<comment> \<open>\<open>String(n)\<close> for a non-negative integer below \<open>10^21\<close>\<close>
  "string_of_int n =
     (if n < 10 then [''0123456789'' ! nat n]
      else string_of_int (n div 10) @ [''0123456789'' ! nat (n mod 10)])"
  by pat_completeness auto
termination
  by (relation "measure nat") auto

declare string_of_int.simps [simp del]

definition padStart :: "nat \<Rightarrow> char \<Rightarrow> string \<Rightarrow> string" where
  "padStart n c s = replicate (n - length s) c @ s"

section \<open>Numbers of the host language\<close>

text \<open>
  A number is an IEEE 754 binary64 value: a finite value, held as the rational it denotes,
  an infinity, or NaN. The two zeros are one value \<open>Fin 0\<close> (the source never divides by
  a zero and never asks for its sign). \<open>round64\<close> is rounding to the nearest binary64
  value, ties to even: 53 significant bits, least exponent \<open>-1022\<close>, and an infinity
  when the rounded value reaches \<open>2^1024\<close>.
\<close>

datatype number = Fin rat | PInf | NInf | NaN

definition round_half_even :: "rat \<Rightarrow> int" where
  "round_half_even y =
    (let f = \<lfloor>y\<rfloor>; d = y - of_int f
     in if d < 1/2 then f else if 1/2 < d then f + 1 else if even f then f else f + 1)"

definition pow2 :: "int \<Rightarrow> rat" where
  \<comment> \<open>\<open>2^k\<close> for an integer \<open>k\<close>\<close>
  "pow2 k = (if 0 \<le> k then of_int (2 ^ nat k) else 1 / of_int (2 ^ nat (- k)))"

definition ilog2 :: "rat \<Rightarrow> int" where
  \<comment> \<open>for \<open>0 < a\<close>, the \<open>k\<close> with \<open>2^k \<le> a < 2^(k+1)\<close>\<close>
  "ilog2 a = (let (n, d) = quotient_of a; k = bitlen n - bitlen d
              in if pow2 k \<le> a then k else k - 1)"

definition round64 :: "rat \<Rightarrow> number" where
  "round64 x =
    (if x = 0 then Fin 0
     else let a = \<bar>x\<bar>;
              e = max (ilog2 a) (- 1022);
              q = pow2 (e - 52);
              m = round_half_even (a / q)
          in if 1024 \<le> e \<or> (e = 1023 \<and> m = 2 ^ 53) then (if 0 < x then PInf else NInf)
             else Fin (if 0 < x then of_int m * q else - (of_int m * q)))"

fun isFinite :: "number \<Rightarrow> bool" where
  "isFinite (Fin r) = True"
| "isFinite n = False"

fun js_neg :: "number \<Rightarrow> number" where
  "js_neg (Fin r) = Fin (- r)"
| "js_neg PInf = NInf"
| "js_neg NInf = PInf"
| "js_neg NaN = NaN"

fun js_add :: "number \<Rightarrow> number \<Rightarrow> number" where
  "js_add (Fin a) (Fin b) = round64 (a + b)"
| "js_add NaN b = NaN"
| "js_add a NaN = NaN"
| "js_add PInf NInf = NaN"
| "js_add NInf PInf = NaN"
| "js_add PInf b = PInf"
| "js_add NInf b = NInf"
| "js_add a PInf = PInf"
| "js_add a NInf = NInf"

definition js_sub :: "number \<Rightarrow> number \<Rightarrow> number" where
  "js_sub a b = js_add a (js_neg b)"

fun js_div :: "number \<Rightarrow> number \<Rightarrow> number" where
  \<comment> \<open>only a finite dividend over a finite, non-zero divisor occurs in the source\<close>
  "js_div (Fin a) (Fin b) = (if b = 0 then NaN else round64 (a / b))"
| "js_div a b = NaN"

fun js_lt :: "number \<Rightarrow> number \<Rightarrow> bool" where
  "js_lt (Fin a) (Fin b) = (a < b)"
| "js_lt NaN b = False"
| "js_lt a NaN = False"
| "js_lt a NInf = False"
| "js_lt PInf b = False"
| "js_lt NInf b = True"
| "js_lt a PInf = True"

definition js_gt :: "number \<Rightarrow> number \<Rightarrow> bool" where
  "js_gt a b = js_lt b a"

definition js_le :: "number \<Rightarrow> number \<Rightarrow> bool" where
  "js_le a b = (a \<noteq> NaN \<and> b \<noteq> NaN \<and> \<not> js_lt b a)"

definition js_ge :: "number \<Rightarrow> number \<Rightarrow> bool" where
  "js_ge a b = js_le b a"

definition js_min :: "number \<Rightarrow> number \<Rightarrow> number" where
  \<comment> \<open>\<open>Math.min(a, b)\<close>\<close>
  "js_min a b = (if a = NaN \<or> b = NaN then NaN else if js_lt b a then b else a)"

definition truthy :: "number \<Rightarrow> bool" where
  "truthy n = (n \<noteq> NaN \<and> n \<noteq> Fin 0)"

subsection \<open>\<open>Number(string)\<close>\<close>

text \<open>
  The conversion of a string to a number follows the grammar of the language standard:
  white space around the literal is dropped, the empty string is \<open>0\<close>, a literal is
  a binary, octal or hexadecimal integer, or a signed decimal literal with optional
  fraction and exponent, or a signed \<open>Infinity\<close>; anything else is NaN. The value of a
  literal is the nearest binary64 value.
\<close>

definition all_digits :: "string \<Rightarrow> bool" where
  "all_digits ds = (ds \<noteq> [] \<and> list_all is_digit ds)"

definition SignedInteger :: "string \<Rightarrow> int option" where
  "SignedInteger ds =
    (case ds of
       [] \<Rightarrow> None
     | c # ds' \<Rightarrow>
         if c = CHR ''+'' then (if all_digits ds' then Some (digits_val ds') else None)
         else if c = CHR ''-'' then (if all_digits ds' then Some (- digits_val ds') else None)
         else if all_digits ds then Some (digits_val ds) else None)"

definition ExponentPart :: "string \<Rightarrow> int option" where
  \<comment> \<open>the optional exponent part: the exponent, \<open>0\<close> when the part is absent\<close>
  "ExponentPart r =
    (case r of
       [] \<Rightarrow> Some 0
     | c # ds \<Rightarrow> if c = CHR ''e'' \<or> c = CHR ''E'' then SignedInteger ds else None)"

definition StrUnsignedDecimalLiteral :: "string \<Rightarrow> rat option" where
  \<comment> \<open>the mathematical value of the literal, \<open>None\<close> when the string is not one\<close>
  "StrUnsignedDecimalLiteral s =
    (let ip = takeWhile is_digit s; r = dropWhile is_digit s
     in if r \<noteq> [] \<and> hd r = CHR ''.'' then
          (let fp = takeWhile is_digit (tl r); r2 = dropWhile is_digit (tl r)
           in if ip = [] \<and> fp = [] then None
              else case ExponentPart r2 of
                     None \<Rightarrow> None
                   | Some ex \<Rightarrow>
                       Some (of_int (digits_val (ip @ fp)) * 10 powi (ex - int (length fp))))
        else if ip = [] then None
        else case ExponentPart r of
               None \<Rightarrow> None
             | Some ex \<Rightarrow> Some (of_int (digits_val ip) * 10 powi ex))"

definition unsigned_literal :: "string \<Rightarrow> number" where
  "unsigned_literal s =
    (if s = ''Infinity'' then PInf
     else case StrUnsignedDecimalLiteral s of None \<Rightarrow> NaN | Some mv \<Rightarrow> round64 mv)"

definition StrDecimalLiteral :: "string \<Rightarrow> number" where
  "StrDecimalLiteral s =
    (case s of
       [] \<Rightarrow> NaN
     | c # t \<Rightarrow>
         if c = CHR ''+'' then unsigned_literal t
         else if c = CHR ''-'' then js_neg (unsigned_literal t)
         else unsigned_literal s)"

definition radix_digit :: "int \<Rightarrow> char \<Rightarrow> int option" where
  "radix_digit b c =
    (let n = (of_char c :: int);
         v = (if 48 \<le> n \<and> n \<le> 57 then n - 48
              else if 97 \<le> n \<and> n \<le> 102 then n - 87
              else if 65 \<le> n \<and> n \<le> 70 then n - 55
              else 16)
     in if v < b then Some v else None)"

definition NonDecimalIntegerLiteral :: "string \<Rightarrow> number option" where
  \<comment> \<open>\<open>None\<close> when the string has no radix prefix\<close>
  "NonDecimalIntegerLiteral s =
    (case s of
       z # x # ds \<Rightarrow>
         (let b = (if x = CHR ''x'' \<or> x = CHR ''X'' then 16
                   else if x = CHR ''o'' \<or> x = CHR ''O'' then 8
                   else if x = CHR ''b'' \<or> x = CHR ''B'' then 2 else (0::int))
          in if z \<noteq> CHR ''0'' \<or> b = 0 then None
             else if ds \<noteq> [] \<and> list_all (\<lambda>c. radix_digit b c \<noteq> None) ds
             then Some (round64 (of_int (foldl (\<lambda>a c. b * a + the (radix_digit b c)) 0 ds)))
             else Some NaN)
     | _ \<Rightarrow> None)"

definition Number :: "string \<Rightarrow> number" where
  "Number s =
    (let t = trim s
     in if t = [] then Fin 0
        else case NonDecimalIntegerLiteral t of Some n \<Rightarrow> n | None \<Rightarrow> StrDecimalLiteral t)"

section \<open>The locale parser (\<open>src/lib/parse.ts\<close>)\<close>

text \<open>The values a caller can pass for the parameter of type \<open>unknown\<close>.\<close>

datatype js_value = Null | Undefined | NumberValue number | StringValue string | OtherValue

fun parseDecimalInput :: "js_value \<Rightarrow> number option" where
  "parseDecimalInput Null = None"
| "parseDecimalInput Undefined = None"
| "parseDecimalInput (NumberValue v) = (if isFinite v then Some v else None)"
| "parseDecimalInput (StringValue v) =
    (let normalized = trim v
     in if normalized = [] then None
        else
          let normalized = remove_all (\<lambda>c. is_space c \<or> c = CHR 0x27) normalized;
              normalized =
                (if str_includes normalized '','' \<and> str_includes normalized ''.''
                 then replace_char CHR '','' ''.'' (remove_all (\<lambda>c. c = CHR ''.'') normalized)
                 else replace_char CHR '','' ''.'' normalized)
          in if normalized = [] then None
             else let numberValue = Number normalized
                  in if isFinite numberValue then Some numberValue else None)"
| "parseDecimalInput OtherValue = None"

section \<open>Regular expressions\<close>

text \<open>
  The patterns of the source are values of \<open>rx\<close>, and \<open>rmatch\<close> is a backtracking
  matcher: from a state (position, rest of the input, captures so far) it gives the
  states after a match in the order in which backtracking tries them, so the head is the
  match the host engine reports. Repetition is greedy. Every repeated sub-pattern of the
  source consumes a character, so an unbounded repetition runs at most as often as there
  are characters left. The flag \<open>ci\<close> is the pattern flag \<open>i\<close>; all pattern characters
  are ASCII, for which it is the folding of A-Z.
\<close>

definition ascii_lower :: "char \<Rightarrow> char" where
  "ascii_lower c = (let n = (of_char c :: int) in if 65 \<le> n \<and> n \<le> 90 then set_bit5 c else c)"

definition ascii_upper :: "char \<Rightarrow> char" where
  "ascii_upper c = (let n = (of_char c :: int) in if 97 \<le> n \<and> n \<le> 122 then clear_bit5 c else c)"

datatype cls = Lit char | Range char char | Digit | Space | Letter

fun cls_has :: "cls \<Rightarrow> char \<Rightarrow> bool" where
  "cls_has (Lit l) c = (c = l)"
| "cls_has (Range lo hi) c = ((of_char lo :: int) \<le> of_char c \<and> (of_char c :: int) \<le> of_char hi)"
| "cls_has Digit c = is_digit c"
| "cls_has Space c = is_space c"
| "cls_has Letter c = is_letter c"

definition cls_match :: "bool \<Rightarrow> cls list \<Rightarrow> char \<Rightarrow> bool" where
  "cls_match ci cs c =
    (if ci then list_ex (\<lambda>k. cls_has k (ascii_lower c) \<or> cls_has k (ascii_upper c)) cs
     else list_ex (\<lambda>k. cls_has k c) cs)"

datatype rx = Atom "cls list" | Seq rx rx | Alt rx rx | Rep nat "nat option" rx | Grp rx
  | Bol | Eol | Eps

type_synonym mstate = "nat \<times> string \<times> string list"

fun rep :: "(mstate \<Rightarrow> mstate list) \<Rightarrow> nat \<Rightarrow> nat \<Rightarrow> mstate \<Rightarrow> mstate list" where
  \<comment> \<open>at most \<open>k\<close> and at least \<open>lo\<close> further rounds of \<open>f\<close>, more rounds first\<close>
  "rep f 0 lo st = (if lo = 0 then [st] else [])"
| "rep f (Suc k) lo st =
     concat (map (rep f k (lo - 1)) (f st)) @ (if lo = 0 then [st] else [])"

primrec rmatch :: "rx \<Rightarrow> bool \<Rightarrow> mstate \<Rightarrow> mstate list" where
  "rmatch (Atom cs) ci st =
     (case fst (snd st) of
        [] \<Rightarrow> []
      | c # r \<Rightarrow> if cls_match ci cs c then [(Suc (fst st), r, snd (snd st))] else [])"
| "rmatch (Seq a b) ci st = concat (map (rmatch b ci) (rmatch a ci st))"
| "rmatch (Alt a b) ci st = rmatch a ci st @ rmatch b ci st"
| "rmatch (Rep lo hi r) ci st =
     rep (rmatch r ci) (case hi of None \<Rightarrow> length (fst (snd st)) | Some h \<Rightarrow> h) lo st"
| "rmatch (Grp r) ci st =
     map (\<lambda>(p, s, cs). (p, s, cs @ [take (p - fst st) (fst (snd st))])) (rmatch r ci st)"
| "rmatch Bol ci st = (if fst st = 0 then [st] else [])"
| "rmatch Eol ci st = (if fst (snd st) = [] then [st] else [])"
| "rmatch Eps ci st = [st]"

text \<open>
  A match is the index where it starts, the matched text and the captured groups.
  \<open>exec_at r ci p s\<close> looks for the leftmost match in \<open>s\<close>, the part of the input from
  index \<open>p\<close> on.
\<close>

type_synonym rx_match = "nat \<times> string \<times> string list"

fun exec_at :: "rx \<Rightarrow> bool \<Rightarrow> nat \<Rightarrow> string \<Rightarrow> rx_match option" where
  "exec_at r ci p [] =
     (case rmatch r ci (p, [], []) of [] \<Rightarrow> None | (e, _, cs) # _ \<Rightarrow> Some (p, [], cs))"
| "exec_at r ci p (c # s) =
     (case rmatch r ci (p, c # s, []) of
        [] \<Rightarrow> exec_at r ci (Suc p) s
      | (e, _, cs) # _ \<Rightarrow> Some (p, take (e - p) (c # s), cs))"

definition rx_exec :: "rx \<Rightarrow> bool \<Rightarrow> string \<Rightarrow> rx_match option" where
  \<comment> \<open>\<open>s.match(r)\<close> without the flag \<open>g\<close>\<close>
  "rx_exec r ci s = exec_at r ci 0 s"

definition rx_test :: "rx \<Rightarrow> bool \<Rightarrow> string \<Rightarrow> bool" where
  \<comment> \<open>\<open>r.test(s)\<close>\<close>
  "rx_test r ci s = (rx_exec r ci s \<noteq> None)"

fun match_all_at :: "rx \<Rightarrow> bool \<Rightarrow> nat \<Rightarrow> nat \<Rightarrow> string \<Rightarrow> string list" where
  \<comment> \<open>the matches from index \<open>p\<close> on that start at index \<open>u\<close> or later\<close>
  "match_all_at r ci p u [] =
     (if p < u then [] else case rmatch r ci (p, [], []) of [] \<Rightarrow> [] | _ # _ \<Rightarrow> [[]])"
| "match_all_at r ci p u (c # s) =
     (if p < u then match_all_at r ci (Suc p) u s
      else case rmatch r ci (p, c # s, []) of
        [] \<Rightarrow> match_all_at r ci (Suc p) u s
      | (e, _, _) # _ \<Rightarrow> take (e - p) (c # s) # match_all_at r ci (Suc p) (max e (Suc p)) s)"

definition match_all :: "rx \<Rightarrow> bool \<Rightarrow> string \<Rightarrow> string list" where
  \<comment> \<open>\<open>s.match(r)\<close> with the flag \<open>g\<close>: the texts of the successive matches (\<open>null\<close> is \<open>[]\<close>)\<close>
  "match_all r ci s = match_all_at r ci 0 0 s"

definition replace_rx :: "rx \<Rightarrow> bool \<Rightarrow> string \<Rightarrow> string \<Rightarrow> string" where
  \<comment> \<open>\<open>s.replace(r, new)\<close> without the flag \<open>g\<close>\<close>
  "replace_rx r ci new s =
    (case rx_exec r ci s of
       None \<Rightarrow> s
     | Some (p, m, _) \<Rightarrow> take p s @ new @ drop (p + length m) s)"

abbreviation chr :: "char \<Rightarrow> rx" where "chr c \<equiv> Atom [Lit c]"
abbreviation digit :: rx where "digit \<equiv> Atom [Digit]"
abbreviation space :: rx where "space \<equiv> Atom [Space]"
abbreviation ropt :: "rx \<Rightarrow> rx" where "ropt r \<equiv> Rep 0 (Some 1) r"
abbreviation rstar :: "rx \<Rightarrow> rx" where "rstar r \<equiv> Rep 0 None r"
abbreviation rplus :: "rx \<Rightarrow> rx" where "rplus r \<equiv> Rep 1 None r"

fun seqs :: "rx list \<Rightarrow> rx" where
  "seqs [] = Eps"
| "seqs [r] = r"
| "seqs (r # rs) = Seq r (seqs rs)"

fun alts :: "rx list \<Rightarrow> rx" where
  "alts [] = Atom []"
| "alts [r] = r"
| "alts (r # rs) = Alt r (alts rs)"

definition lit :: "string \<Rightarrow> rx" where
  "lit s = seqs (map chr s)"

section \<open>The OCR dispatcher (\<open>runReceiptOcr\<close> in \<open>src/lib/ocr.ts\<close>)\<close>

datatype OcrMode = Auto | Offline | Online

datatype OcrMethod = MethodOffline | MethodOnline

datatype UiLanguage = De | It

datatype error = Error string

record OcrSource =
  dataBase64 :: string
  contentType :: string

record OcrRunOptions =
  mode :: OcrMode
  apiKey :: "string option"
  uiLanguage :: "UiLanguage option"

record OcrResult =
  result_text :: string
  result_method :: OcrMethod

text \<open>
  The body of the remote service's answer, as the source's type assertion declares it.
\<close>

datatype ErrorMessage = Message string | Messages "string list"

record OcrResponseData =
  ParsedResults :: "string option list option"
  IsErroredOnProcessing :: "bool option"
  ErrorMessage :: "ErrorMessage option"

datatype json_outcome = JsonRejected error | Json OcrResponseData

datatype fetch_outcome = FetchRejected error | Response bool json_outcome

text \<open>
  Everything \<open>runReceiptOcr\<close> reads from outside: \<open>navigator.onLine\<close>, the answer of
  \<open>fetch\<close> to a request, and the outcome of the bundled recognition engine
  (rasterisation, worker creation and recognition together) on a source; a rejected promise
  is \<open>Inl\<close>. The progress callback has no influence on the result and is left out.
\<close>

record host =
  onLine :: bool
  fetch :: "string \<Rightarrow> (string \<times> string) list \<Rightarrow> fetch_outcome"
  offlineEngine :: "OcrSource \<Rightarrow> error + string"

definition runOfflineOcr :: "host \<Rightarrow> OcrSource \<Rightarrow> OcrRunOptions \<Rightarrow> error + string" where
  "runOfflineOcr h source options = offlineEngine h source"

definition dataUri :: "OcrSource \<Rightarrow> string" where
  "dataUri source = ''data:'' @ contentType source @ '';base64,'' @ dataBase64 source"

definition runOnlineOcr :: "host \<Rightarrow> OcrSource \<Rightarrow> OcrRunOptions \<Rightarrow> error + string" where
  "runOnlineOcr h source options =
    (case map_option trim (apiKey options) of
       None \<Rightarrow> Inl (Error ''Kein API-Schluessel fuer Online-OCR'')
     | Some key \<Rightarrow>
        if key = [] then Inl (Error ''Kein API-Schluessel fuer Online-OCR'')
        else
          let language = (if uiLanguage options = Some It then ''ita'' else ''ger'');
              payload = [(''apikey'', key), (''language'', language),
                         (''isOverlayRequired'', ''false''), (''OCREngine'', ''2''),
                         (''base64Image'', dataUri source)]
          in case fetch h ''https://api.ocr.space/parse/image'' payload of
               FetchRejected e \<Rightarrow> Inl e
             | Response ok body \<Rightarrow>
                 if \<not> ok then Inl (Error ''Online-OCR fehlgeschlagen'')
                 else case body of
                   JsonRejected e \<Rightarrow> Inl e
                 | Json data \<Rightarrow>
                     if IsErroredOnProcessing data = Some True then
                       let message = (case ErrorMessage data of
                                        None \<Rightarrow> None
                                      | Some (Message m) \<Rightarrow> Some m
                                      | Some (Messages ms) \<Rightarrow> Some (join '', '' ms))
                       in Inl (Error (case message of
                                        None \<Rightarrow> ''Online-OCR Fehler''
                                      | Some m \<Rightarrow> if m = [] then ''Online-OCR Fehler'' else m))
                     else
                       Inr (case ParsedResults data of
                              None \<Rightarrow> []
                            | Some [] \<Rightarrow> []
                            | Some (None # _) \<Rightarrow> []
                            | Some (Some t # _) \<Rightarrow> t))"

text \<open>
  \<open>runReceiptOcr\<close> returns the rejection or the result, together with the paths it ran,
  in order.
\<close>

datatype path = Remote | Local

definition wantsOnline :: "host \<Rightarrow> OcrRunOptions \<Rightarrow> bool" where
  \<comment> \<open>\<open>!!options.apiKey\<close> holds for a string that is not empty\<close>
  "wantsOnline h options =
    (mode options = Online \<or>
     (mode options = Auto \<and> (case apiKey options of None \<Rightarrow> False | Some k \<Rightarrow> k \<noteq> [])
      \<and> onLine h))"

definition offlineResult :: "host \<Rightarrow> OcrSource \<Rightarrow> OcrRunOptions \<Rightarrow> error + OcrResult" where
  "offlineResult h source options =
    (case runOfflineOcr h source options of
       Inl e \<Rightarrow> Inl e
     | Inr t \<Rightarrow> Inr \<lparr>result_text = t, result_method = MethodOffline\<rparr>)"

definition runReceiptOcr :: "host \<Rightarrow> OcrSource \<Rightarrow> OcrRunOptions \<Rightarrow> path list \<times> (error + OcrResult)" where
  "runReceiptOcr h source options =
    (if wantsOnline h options then
       (case runOnlineOcr h source options of
          Inr t \<Rightarrow> ([Remote], Inr \<lparr>result_text = t, result_method = MethodOnline\<rparr>)
        | Inl e \<Rightarrow>
            if mode options = Online then ([Remote], Inl e)
            else ([Remote, Local], offlineResult h source options))
     else ([Local], offlineResult h source options))"

section \<open>Line normaliser and classifier (\<open>src/lib/ocr.ts\<close>)\<close>

definition isTextLine :: "string \<Rightarrow> bool" where
  "isTextLine line = (list_ex is_letter line \<and> length line > 3)"

definition normalizeOcrLine :: "string \<Rightarrow> string" where
  "normalizeOcrLine line =
    trim (strip_trailing (\<lambda>c. c \<in> set ''.,;:'')
           (replace_runs is_space '' '' (replace_runs (\<lambda>c. c = CHR ''|'') '' '' line)))"

definition noiseKeywords :: "string list" where
  "noiseKeywords = [''total'', ''summe'', ''gesamt'', ''betrag'', ''zu zahlen'', ''da pagare'',
                    ''importo'', ''mwst'', ''ust'', ''vat'', ''iva'']"

definition isNoiseLine :: "string \<Rightarrow> bool" where
  "isNoiseLine line = (let lower = toLowerCase line in list_ex (str_includes lower) noiseKeywords)"

definition amount_token :: rx where
  \<comment> \<open>\<open>\d{1,3}(?:[\s'.]\d{3})*(?:[.,]\d{2})|\d+[.,]\d{2}\<close>\<close>
  "amount_token =
    Alt (seqs [Rep 1 (Some 3) digit,
               rstar (Seq (Atom [Space, Lit CHR 0x27, Lit CHR ''.'']) (Rep 3 (Some 3) digit)),
               Seq (Atom [Lit CHR ''.'', Lit CHR '','']) (Rep 2 (Some 2) digit)])
        (seqs [rplus digit, Atom [Lit CHR ''.'', Lit CHR '',''], Rep 2 (Some 2) digit])"

definition AMOUNT_PATTERN :: rx where
  "AMOUNT_PATTERN = Grp amount_token"

definition currency :: rx where
  \<comment> \<open>\<open>(?:chf|fr|eur)\<close>\<close>
  "currency = alts [lit ''chf'', lit ''fr'', lit ''eur'']"

definition price_tail :: rx where
  \<comment> \<open>\<open>\s*(?:chf|fr|eur)?\s*[a-z]?\s*[.,;:]?\s*$\<close>\<close>
  "price_tail =
    seqs [rstar space, ropt currency, rstar space, ropt (Atom [Range CHR ''a'' CHR ''z'']),
          rstar space, ropt (Atom [Lit CHR ''.'', Lit CHR '','', Lit CHR '';'', Lit CHR '':'']),
          rstar space, Eol]"

definition PRICE_ONLY_PATTERN :: rx where
  "PRICE_ONLY_PATTERN =
    seqs [Bol, rstar space, ropt currency, rstar space, Grp amount_token, price_tail]"

definition TRAILING_PRICE_PATTERN :: rx where
  "TRAILING_PRICE_PATTERN =
    seqs [ropt (chr CHR ''-''), rstar space, ropt currency, rstar space, Grp amount_token,
          price_tail]"

definition isPriceOnlyLine :: "string \<Rightarrow> bool" where
  "isPriceOnlyLine line = rx_test PRICE_ONLY_PATTERN True line"

definition stripTrailingPrice :: "string \<Rightarrow> string" where
  "stripTrailingPrice line = trim (replace_rx TRAILING_PRICE_PATTERN True [] line)"

definition contact_pattern :: rx where
  \<comment> \<open>\<open>(tel|fax|www|http|@)\<close>\<close>
  "contact_pattern = Grp (alts [lit ''tel'', lit ''fax'', lit ''www'', lit ''http'', lit ''@''])"

definition looksLikeItemLine :: "string \<Rightarrow> bool" where
  "looksLikeItemLine line =
    (if \<not> isTextLine line \<or> isNoiseLine line then False
     else let letters = filter is_letter line
          in if length letters < 2 then False
             else let digits = filter is_digit line
                  in if length digits > length letters * 2 then False
                     else if rx_test contact_pattern True line then False
                     else True)"

section \<open>Field extractors (\<open>src/lib/ocr.ts\<close>)\<close>

text \<open>
  \<open>items_loop\<close> is the first loop of \<open>extractItems\<close>, from index \<open>index\<close> on with the
  items pushed so far; a line read past the end of the list is \<open>undefined\<close>.
\<close>

function items_loop :: "string list \<Rightarrow> nat \<Rightarrow> string list \<Rightarrow> string list" where
  "items_loop lines index items =
    (if \<not> index < length lines then items
     else
       let line = normalizeOcrLine (lines ! index)
       in if isNoiseLine line \<or> isPriceOnlyLine line then items_loop lines (index + 1) items
          else if rx_test AMOUNT_PATTERN False line then
            (let cleaned = stripTrailingPrice line
             in if length cleaned \<ge> 3 \<and> looksLikeItemLine cleaned then
                  (if length (items @ [cleaned]) \<ge> 6 then items @ [cleaned]
                   else items_loop lines (index + 1) (items @ [cleaned]))
                else items_loop lines (index + 1) items)
          else if \<not> looksLikeItemLine line then items_loop lines (index + 1) items
          else
            let next = (if index + 1 < length lines \<and> lines ! (index + 1) \<noteq> []
                        then normalizeOcrLine (lines ! (index + 1)) else [])
            in if next \<noteq> [] \<and> isPriceOnlyLine next then
                 (if length (items @ [line]) \<ge> 6 then items @ [line]
                  else items_loop lines (index + 1 + 1) (items @ [line]))
               else items_loop lines (index + 1) items)"
  by pat_completeness auto
termination
  by (relation "measure (\<lambda>(lines, index, items). length lines - index)") auto

declare items_loop.simps [simp del]

fun items_fallback :: "string list \<Rightarrow> string list \<Rightarrow> string list" where
  \<comment> \<open>the second loop of \<open>extractItems\<close>, over the lines left, with the items pushed so far\<close>
  "items_fallback [] items = items"
| "items_fallback (line # lines) items =
     (if isPriceOnlyLine line \<or> \<not> looksLikeItemLine line then items_fallback lines items
      else if length (items @ [line]) \<ge> 4 then items @ [line]
      else items_fallback lines (items @ [line]))"

definition extractItems :: "string list \<Rightarrow> string list" where
  "extractItems lines =
    (let items = items_loop lines 0 []
     in if length items = 0 then items_fallback lines items else items)"

definition date_sep :: rx where
  \<comment> \<open>\<open>[.\-/]\<close>\<close>
  "date_sep = Atom [Lit CHR ''.'', Lit CHR ''-'', Lit CHR ''/'']"

definition date_patterns :: "rx list" where
  \<comment> \<open>\<open>(\d{1,2})[.\-/](\d{1,2})[.\-/](\d{2,4})\<close> and \<open>(\d{4})[.\-/](\d{1,2})[.\-/](\d{1,2})\<close>\<close>
  "date_patterns =
    [seqs [Grp (Rep 1 (Some 2) digit), date_sep, Grp (Rep 1 (Some 2) digit), date_sep,
           Grp (Rep 2 (Some 4) digit)],
     seqs [Grp (Rep 4 (Some 4) digit), date_sep, Grp (Rep 1 (Some 2) digit), date_sep,
           Grp (Rep 1 (Some 2) digit)]]"

text \<open>
  The numbers of \<open>findDate\<close> and \<open>toIsoDate\<close> are \<open>Number(d)\<close> for a captured string
  \<open>d\<close> of one to four digits, and such a number plus 1900 or 2000: non-negative integers
  that binary64 holds exactly. They are integers here, \<open>Number(d)\<close> is
  \<open>digits_val d\<close>, and \<open>!year\<close> is \<open>year = 0\<close>.
\<close>

definition toIsoDate :: "int \<Rightarrow> int \<Rightarrow> int \<Rightarrow> string option" where
  "toIsoDate year month day =
    (if year = 0 \<or> month = 0 \<or> day = 0 then None
     else let safeMonth = padStart 2 CHR ''0'' (string_of_int month);
              safeDay = padStart 2 CHR ''0'' (string_of_int day)
          in Some (string_of_int year @ ''-'' @ safeMonth @ ''-'' @ safeDay))"

fun findDate :: "string list \<Rightarrow> string option" where
  "findDate [] = None"
| "findDate (line # lines) =
    (case rx_exec (date_patterns ! 0) False line of
       Some (_, _, match) \<Rightarrow>
         (let day = digits_val (match ! 0);
              month = digits_val (match ! 1);
              year = digits_val (match ! 2);
              year = (if year < 100 then year + (if year \<ge> 70 then 1900 else 2000) else year)
          in toIsoDate year month day)
     | None \<Rightarrow>
         (case rx_exec (date_patterns ! 1) False line of
            Some (_, _, match) \<Rightarrow>
              (let year = digits_val (match ! 0);
                   month = digits_val (match ! 1);
                   day = digits_val (match ! 2)
               in toIsoDate year month day)
          | None \<Rightarrow> findDate lines))"

record candidate =
  cand_value :: number
  cand_score :: number

definition amountKeywords :: "string list" where
  "amountKeywords = [''total'', ''summe'', ''gesamt'', ''betrag'', ''totale'', ''importo'',
                     ''da pagare'', ''zu zahlen'']"

definition hasKeyword :: "string \<Rightarrow> bool" where
  "hasKeyword line = (let lower = toLowerCase line in list_ex (str_includes lower) amountKeywords)"

definition hasChf :: "string \<Rightarrow> bool" where
  "hasChf line = (let lower = toLowerCase line in str_includes lower ''chf'' \<or> str_includes lower ''fr'')"

definition amount_candidate :: "string \<Rightarrow> string \<Rightarrow> candidate option" where
  \<comment> \<open>the body of the inner loop of \<open>findAmount\<close>: the candidate pushed for the token \<open>raw\<close>\<close>
  "amount_candidate line raw =
    (case parseDecimalInput (StringValue raw) of
       None \<Rightarrow> None
     | Some parsed \<Rightarrow>
         if \<not> truthy parsed \<or> js_le parsed (Fin 0) then None
         else
           let score = parsed;
               score = (if hasKeyword line then js_add score (Fin 1000) else score);
               score = (if hasChf line then js_add score (Fin 500) else score)
           in Some \<lparr>cand_value = parsed, cand_score = score\<rparr>)"

definition line_candidates :: "string \<Rightarrow> candidate list" where
  "line_candidates line =
    List.map_filter (amount_candidate line) (match_all AMOUNT_PATTERN False line)"

text \<open>
  \<open>Array.prototype.sort\<close> is a stable sort. With the comparator \<open>cmp\<close>, an element
  \<open>x\<close> goes before an element \<open>y\<close> that precedes it in the array exactly when
  \<open>cmp(y, x) > 0\<close>.
\<close>

fun insert_by :: "('a \<Rightarrow> 'a \<Rightarrow> number) \<Rightarrow> 'a \<Rightarrow> 'a list \<Rightarrow> 'a list" where
  "insert_by cmp x [] = [x]"
| "insert_by cmp x (y # ys) =
     (if js_gt (cmp y x) (Fin 0) then x # y # ys else y # insert_by cmp x ys)"

definition sort_by :: "('a \<Rightarrow> 'a \<Rightarrow> number) \<Rightarrow> 'a list \<Rightarrow> 'a list" where
  "sort_by cmp xs = foldl (\<lambda>sorted x. insert_by cmp x sorted) [] xs"

definition findAmount :: "string list \<Rightarrow> number option" where
  "findAmount lines =
    (let candidates = concat (map line_candidates lines)
     in if length candidates = 0 then None
        else case sort_by (\<lambda>a b. js_sub (cand_score b) (cand_score a)) candidates of
               c # _ \<Rightarrow> Some (cand_value c)
             | [] \<Rightarrow> None)"

definition keywordPattern :: rx where
  \<comment> \<open>\<open>(mwst|ust|vat|iva)\<close>, with the flag \<open>i\<close>\<close>
  "keywordPattern = Grp (alts [lit ''mwst'', lit ''ust'', lit ''vat'', lit ''iva''])"

definition percentPattern :: rx where
  \<comment> \<open>\<open>(\d{1,2}(?:[.,]\d)?)\s*%\<close>\<close>
  "percentPattern =
    seqs [Grp (Seq (Rep 1 (Some 2) digit) (ropt (Seq (Atom [Lit CHR ''.'', Lit CHR '','']) digit))),
          rstar space, chr CHR ''%'']"

fun findMwstRate :: "string list \<Rightarrow> number option" where
  "findMwstRate [] = None"
| "findMwstRate (line # lines) =
    (if \<not> rx_test keywordPattern True line then findMwstRate lines
     else case rx_exec percentPattern False line of
            None \<Rightarrow> findMwstRate lines
          | Some (_, _, match) \<Rightarrow>
              (case parseDecimalInput (StringValue (match ! 0)) of
                 None \<Rightarrow> findMwstRate lines
               | Some parsed \<Rightarrow> Some parsed))"

section \<open>The suggestion (\<open>parseReceiptText\<close> in \<open>src/lib/ocr.ts\<close>)\<close>

record OcrSuggestion =
  date :: "string option"
  amount :: "number option"
  mwstRate :: "number option"
  description :: "string option"
  noteText :: "string option"

definition receipt_lines :: "string \<Rightarrow> string list" where
  "receipt_lines txt = filter (\<lambda>line. length line > 0) (map normalizeOcrLine (split_lines [] txt))"

definition parseReceiptText :: "string \<Rightarrow> OcrSuggestion" where
  "parseReceiptText txt =
    (let lines = receipt_lines txt;
         descr = find (\<lambda>line. isTextLine line \<and> \<not> isNoiseLine line) lines;
         items = extractItems lines;
         note = (if length items > 0 then Some (join '', '' items) else None)
     in \<lparr>date = findDate lines,
         amount = findAmount lines,
         mwstRate = findMwstRate lines,
         description = (case descr of
                          Some d \<Rightarrow> Some d
                        | None \<Rightarrow> (case items of [] \<Rightarrow> None | item # _ \<Rightarrow> Some item)),
         noteText = note\<rparr>)"

section \<open>The category suggester (\<open>src/pages/ExpensePage.tsx\<close>)\<close>

record Category =
  category_id :: int
  category_name :: string
  category_description :: "string option"
  default_mwst_rate :: number
  is_active :: bool

definition normalizeText :: "string \<Rightarrow> string" where
  "normalizeText v =
    concat (map (\<lambda>c. if c = CHR 0xE4 then ''ae'' else if c = CHR 0xF6 then ''oe''
                      else if c = CHR 0xFC then ''ue'' else if c = CHR 0xDF then ''ss'' else [c])
                (toLowerCase v))"

definition is_word_char :: "char \<Rightarrow> bool" where
  \<comment> \<open>\<open>[a-z0-9]\<close>\<close>
  "is_word_char c = (c \<in> set ''abcdefghijklmnopqrstuvwxyz0123456789'')"

definition tokenise :: "string \<Rightarrow> string list" where
  "tokenise v =
    filter (\<lambda>word. length word > 2) (split_runs (\<lambda>c. \<not> is_word_char c) [] (normalizeText v))"

record hint =
  hint_match :: "string list"
  hint_keywords :: "string list"

definition categoryHints :: "hint list" where
  "categoryHints =
    [\<lparr>hint_match = [''lebensmittel'', ''zutaten'', ''einkauf'', ''food'', ''aliment''],
      hint_keywords = [''migros'', ''coop'', ''lidl'', ''aldi'', ''market'', ''cash'']\<rparr>,
     \<lparr>hint_match = [''verpack'', ''pack'', ''box'', ''becher''],
      hint_keywords = [''box'', ''becher'', ''deckel'', ''folie'', ''take'', ''away'', ''verpack'']\<rparr>,
     \<lparr>hint_match = [''fahr'', ''treib'', ''tank'', ''fuel'', ''benz'', ''diesel''],
      hint_keywords = [''shell'', ''bp'', ''avia'', ''agip'', ''eni'', ''esso'', ''tank'']\<rparr>,
     \<lparr>hint_match = [''reinigung'', ''clean'', ''deterg''],
      hint_keywords = [''reinigung'', ''putz'', ''deterg'', ''clean'', ''soap'']\<rparr>,
     \<lparr>hint_match = [''marketing'', ''werbung'', ''promo''],
      hint_keywords = [''werbung'', ''promo'', ''promotion'', ''facebook'', ''instagram'', ''ads'',
                       ''flyer'']\<rparr>,
     \<lparr>hint_match = [''standplatz'', ''miete'', ''gebuehr'', ''gebuehren''],
      hint_keywords = [''miete'', ''rent'', ''gebuehr'', ''stand'', ''platz'']\<rparr>,
     \<lparr>hint_match = [''versicherung'', ''insurance'', ''assicur''],
      hint_keywords = [''versicherung'', ''insurance'', ''assicur'']\<rparr>,
     \<lparr>hint_match = [''reparatur'', ''wartung'', ''service''],
      hint_keywords = [''reparatur'', ''wartung'', ''service'', ''officina'']\<rparr>]"

definition keyword_step :: "string \<Rightarrow> number \<Rightarrow> string \<Rightarrow> number" where
  \<comment> \<open>the body of the loop over \<open>keywords\<close>\<close>
  "keyword_step haystack score keyword =
    (if str_includes haystack keyword
     then js_add score (js_min (Fin 4) (js_add (Fin 1) (js_div (Fin (of_nat (length keyword))) (Fin 5))))
     else score)"

definition hint_step :: "string \<Rightarrow> string \<Rightarrow> number \<Rightarrow> hint \<Rightarrow> number" where
  \<comment> \<open>the body of the loop over \<open>categoryHints\<close>\<close>
  "hint_step haystack name score h =
    (if \<not> list_ex (\<lambda>m. str_includes name m) (hint_match h) then score
     else if list_ex (\<lambda>keyword. str_includes haystack keyword) (hint_keywords h)
          then js_add score (Fin 3)
          else score)"

definition category_score :: "string \<Rightarrow> Category \<Rightarrow> number" where
  \<comment> \<open>the value of \<open>score\<close> at the end of the loop body for \<open>category\<close>\<close>
  "category_score haystack category =
    (let name = normalizeText (category_name category);
         descr = normalizeText (case category_description category of None \<Rightarrow> [] | Some d \<Rightarrow> d);
         keywords = tokenise (name @ '' '' @ descr);
         score = foldl (keyword_step haystack) (Fin 0) keywords
     in foldl (hint_step haystack name) score categoryHints)"

fun suggest_loop :: "string \<Rightarrow> Category list \<Rightarrow> (int \<times> number) option \<Rightarrow> (int \<times> number) option" where
  \<comment> \<open>the loop over \<open>categories\<close>, with the value of \<open>best\<close> so far\<close>
  "suggest_loop haystack [] best = best"
| "suggest_loop haystack (category # categories) best =
    (if \<not> is_active category then suggest_loop haystack categories best
     else
       let score = category_score haystack category
       in if best = None \<or> js_gt score (snd (the best))
          then suggest_loop haystack categories (Some (category_id category, score))
          else suggest_loop haystack categories best)"

definition suggestCategoryId :: "string \<Rightarrow> Category list \<Rightarrow> int option" where
  "suggestCategoryId txt categories =
    (if txt = [] \<or> length categories = 0 then None
     else
       let haystack = normalizeText txt
       in case suggest_loop haystack categories None of
            None \<Rightarrow> None
          | Some (best_id, best_score) \<Rightarrow> if js_ge best_score (Fin 2) then Some best_id else None)"

section \<open>Example inputs\<close>

definition example_host :: host where
  "example_host =
    \<lparr>onLine = True,
     fetch = (\<lambda>url payload. Response False (JsonRejected (Error ''unread''))),
     offlineEngine = (\<lambda>source. Inr ''TOTAL CHF 5.00'')\<rparr>"

definition example_source :: OcrSource where
  "example_source = \<lparr>dataBase64 = ''AAAA'', contentType = ''image/jpeg''\<rparr>"

definition example_options :: "OcrMode \<Rightarrow> OcrRunOptions" where
  "example_options m = \<lparr>mode = m, apiKey = Some ''key'', uiLanguage = None\<rparr>"

definition example_category :: "int \<Rightarrow> string \<Rightarrow> bool \<Rightarrow> Category" where
  "example_category i n a =
    \<lparr>category_id = i, category_name = n, category_description = None,
     default_mwst_rate = Fin 0, is_active = a\<rparr>"

section \<open>Notions used in the statements\<close>

definition date_match :: "string \<Rightarrow> (int \<times> int \<times> int) option" where
  \<comment> \<open>the year (after windowing), month and day that \<open>findDate\<close> reads from a line, from the
     first of the two patterns that matches; \<open>None\<close> when neither matches\<close>
  "date_match line =
    (case rx_exec (date_patterns ! 0) False line of
       Some (_, _, match) \<Rightarrow>
         (let year = digits_val (match ! 2)
          in Some (if year < 100 then year + (if year \<ge> 70 then 1900 else 2000) else year,
                   digits_val (match ! 1), digits_val (match ! 0)))
     | None \<Rightarrow>
         (case rx_exec (date_patterns ! 1) False line of
            Some (_, _, match) \<Rightarrow>
              Some (digits_val (match ! 0), digits_val (match ! 1), digits_val (match ! 2))
          | None \<Rightarrow> None))"

definition iso_date :: "int \<Rightarrow> int \<Rightarrow> int \<Rightarrow> string" where
  \<comment> \<open>year, month and day in the form \<open>Y-MM-DD\<close>\<close>
  "iso_date y m d =
    string_of_int y @ ''-'' @ padStart 2 CHR ''0'' (string_of_int m) @ ''-'' @
    padStart 2 CHR ''0'' (string_of_int d)"

definition percent_token :: "string \<Rightarrow> string option" where
  \<comment> \<open>the number of the leftmost percentage token of a line\<close>
  "percent_token line =
    (case rx_exec percentPattern False line of None \<Rightarrow> None | Some (_, _, match) \<Rightarrow> Some (match ! 0))"

definition trailing_percent_token :: "string \<Rightarrow> string option" where
  \<comment> \<open>the number of a percentage token that ends the line: the pattern of \<open>findMwstRate\<close>
     followed by the end of the line\<close>
  "trailing_percent_token line =
    (case rx_exec (Seq percentPattern Eol) False line of
       None \<Rightarrow> None
     | Some (_, _, match) \<Rightarrow> Some (match ! 0))"

definition description_line :: "string \<Rightarrow> bool" where
  \<comment> \<open>the test of \<open>parseReceiptText\<close> for the description\<close>
  "description_line line = (isTextLine line \<and> \<not> isNoiseLine line)"






fun rate_token :: "string \<Rightarrow> bool" where
  \<comment> \<open>one or two digits, then possibly a point or a comma and one digit\<close>
  "rate_token [a] = is_digit a"
| "rate_token [a, b] = (is_digit a \<and> is_digit b)"
| "rate_token [a, c, d] = (is_digit a \<and> c \<in> set ''.,'' \<and> is_digit d)"
| "rate_token [a, b, c, d] = (is_digit a \<and> is_digit b \<and> c \<in> set ''.,'' \<and> is_digit d)"
| "rate_token w = False"

fun no_group :: "rx \<Rightarrow> bool" where
  "no_group (Grp r) = False"
| "no_group (Seq a b) = (no_group a \<and> no_group b)"
| "no_group (Alt a b) = (no_group a \<and> no_group b)"
| "no_group (Rep lo hi r) = no_group r"
| "no_group r = True"



definition first_max :: "('a \<Rightarrow> number) \<Rightarrow> 'a list \<Rightarrow> 'a option" where
  \<comment> \<open>the first element of a list whose score no element of the list exceeds\<close>
  "first_max f xs = find (\<lambda>x. \<forall>y\<in>set xs. \<not> js_lt (f x) (f y)) xs"




definition pick :: "candidate \<Rightarrow> candidate \<Rightarrow> candidate" where
  \<comment> \<open>the better of the best candidate so far and the next one\<close>
  "pick b x = (if js_lt (cand_score b) (cand_score x) then x else b)"

subsection \<open>The scoring rule of the category suggester, as the specification words it\<close>

definition reference_words :: "Category \<Rightarrow> string list" where
  \<comment> \<open>the words of a category: the pieces of length above 2 between the runs of characters
     other than \<open>a-z\<close> and \<open>0-9\<close> in the normalized name, a space, and the normalized description\<close>
  "reference_words c =
    filter (\<lambda>w. length w > 2)
      (split_runs (\<lambda>ch. \<not> is_word_char ch) []
         (normalizeText (category_name c) @ '' '' @
          normalizeText (case category_description c of None \<Rightarrow> [] | Some d \<Rightarrow> d)))"

definition reference_points :: "string \<Rightarrow> number" where
  \<comment> \<open>what a word found in the text adds: \<open>min(4, 1 + wordLength / 5)\<close>\<close>
  "reference_points w = js_min (Fin 4) (js_add (Fin 1) (js_div (Fin (of_nat (length w))) (Fin 5)))"

definition reference_hint :: "string \<Rightarrow> Category \<Rightarrow> hint \<Rightarrow> bool" where
  \<comment> \<open>a hint entry counts for a category: a match term occurs in the normalized name and a
     keyword term occurs in the text\<close>
  "reference_hint haystack c h =
    ((\<exists>m\<in>set (hint_match h). str_includes (normalizeText (category_name c)) m)
     \<and> (\<exists>k\<in>set (hint_keywords h). str_includes haystack k))"

definition js_sum :: "number list \<Rightarrow> number" where
  \<comment> \<open>the sum of the numbers, added in their order\<close>
  "js_sum ns = foldl js_add (Fin 0) ns"

definition reference_score :: "string \<Rightarrow> Category \<Rightarrow> number" where
  \<comment> \<open>the score of a category against the normalized text\<close>
  "reference_score haystack c =
    js_sum (map reference_points (filter (str_includes haystack) (reference_words c))
            @ map (\<lambda>h. Fin 3) (filter (reference_hint haystack c) categoryHints))"

definition reference_suggestion :: "string \<Rightarrow> Category list \<Rightarrow> int option" where
  \<comment> \<open>the first active category whose score no active category exceeds, when that score is
     at least 2\<close>
  "reference_suggestion txt categories =
    (case first_max (reference_score (normalizeText txt)) (filter is_active categories) of
       None \<Rightarrow> None
     | Some c \<Rightarrow>
         if js_ge (reference_score (normalizeText txt) c) (Fin 2) then Some (category_id c) else None)"

definition norm_char :: "char \<Rightarrow> string" where
  \<comment> \<open>what \<open>normalizeText\<close> makes of a lower-case character\<close>
  "norm_char c = (if c = CHR 0xE4 then ''ae'' else if c = CHR 0xF6 then ''oe''
                      else if c = CHR 0xFC then ''ue'' else if c = CHR 0xDF then ''ss'' else [c])"

definition nonneg_number :: "number \<Rightarrow> bool" where
  \<comment> \<open>a finite number that is not negative, or the positive infinity\<close>
  "nonneg_number n = (n = PInf \<or> (\<exists>r. n = Fin r \<and> 0 \<le> r))"

definition better :: "string \<Rightarrow> Category \<Rightarrow> Category \<Rightarrow> Category" where
  \<comment> \<open>the better of the best category so far and the next one\<close>
  "better haystack b x =
    (if js_lt (reference_score haystack b) (reference_score haystack x) then x else b)"

definition example_categories :: "Category list" where
  "example_categories =
    [\<lparr>category_id = 1, category_name = ''Einkauf'', category_description = None,
      default_mwst_rate = Fin 0, is_active = False\<rparr>,
     \<lparr>category_id = 2, category_name = ''Lebensmittel'',
      category_description = Some ''Einkauf und Zutaten'',
      default_mwst_rate = Fin 0, is_active = True\<rparr>,
     \<lparr>category_id = 3, category_name = ''Verpackung'', category_description = None,
      default_mwst_rate = Fin 0, is_active = True\<rparr>,
     \<lparr>category_id = 4, category_name = ''Zutaten'', category_description = Some ''Lebensmittel'',
      default_mwst_rate = Fin 0, is_active = True\<rparr>]"

subsection \<open>The locale parser, as the specification words it\<close>






section \<open>The dispatcher\<close>

text \<open>
  C3. The dispatcher runs the remote path exactly when the mode is \<open>online\<close>, or the mode
  is \<open>auto\<close> and a credential is configured and the host reports connectivity; otherwise
  it runs the local path only. When the remote path fails, in mode \<open>auto\<close> the local path
  is run next and its outcome is the outcome of the call; in mode \<open>online\<close> the remote
  error is the outcome and the local path is not run.
\<close>

theorem runReceiptOcr_dispatch:
  "((Remote \<in> set (fst (runReceiptOcr h source options))) =
      (mode options = Online \<or>
       (mode options = Auto \<and> (\<exists>k. apiKey options = Some k \<and> k \<noteq> []) \<and> onLine h)))
   \<and> (Remote \<notin> set (fst (runReceiptOcr h source options)) \<longrightarrow>
        runReceiptOcr h source options = ([Local], offlineResult h source options))
   \<and> (Remote \<in> set (fst (runReceiptOcr h source options)) \<longrightarrow>
        runOnlineOcr h source options = Inl e \<longrightarrow> mode options = Auto \<longrightarrow>
        runReceiptOcr h source options = ([Remote, Local], offlineResult h source options))
   \<and> (Remote \<in> set (fst (runReceiptOcr h source options)) \<longrightarrow>
        runOnlineOcr h source options = Inl e \<longrightarrow> mode options = Online \<longrightarrow>
        runReceiptOcr h source options = ([Remote], Inl e))
   \<and> (Remote \<in> set (fst (runReceiptOcr h source options)) \<longrightarrow>
        runOnlineOcr h source options = Inr t \<longrightarrow>
        runReceiptOcr h source options =
          ([Remote], Inr \<lparr>result_text = t, result_method = MethodOnline\<rparr>))"
  by (auto simp: runReceiptOcr_def wantsOnline_def split: sum.splits option.splits if_splits)

lemma example_remote_fails:
  "runOnlineOcr example_host example_source (example_options m) =
     Inl (Error ''Online-OCR fehlgeschlagen'')"
  by (simp add: runOnlineOcr_def example_host_def example_options_def trim_def is_space_def)

theorem runReceiptOcr_dispatch_witness:
  "runReceiptOcr example_host example_source (example_options Auto) =
     ([Remote, Local], Inr \<lparr>result_text = ''TOTAL CHF 5.00'', result_method = MethodOffline\<rparr>)
   \<and> runReceiptOcr example_host example_source (example_options Online) =
     ([Remote], Inl (Error ''Online-OCR fehlgeschlagen''))
   \<and> runReceiptOcr example_host example_source (example_options Offline) =
     ([Local], Inr \<lparr>result_text = ''TOTAL CHF 5.00'', result_method = MethodOffline\<rparr>)"
  using runReceiptOcr_dispatch [of example_host example_source "example_options Auto"
          "Error ''Online-OCR fehlgeschlagen''"]
        runReceiptOcr_dispatch [of example_host example_source "example_options Online"
          "Error ''Online-OCR fehlgeschlagen''"]
        runReceiptOcr_dispatch [of example_host example_source "example_options Offline"]
        example_remote_fails
  by (simp add: example_options_def example_host_def offlineResult_def runOfflineOcr_def)

section \<open>The category suggester: inactive categories\<close>

lemma suggest_loop_inactive:
  "\<forall>c\<in>set categories. \<not> is_active c \<Longrightarrow> suggest_loop haystack categories best = best"
  by (induction categories arbitrary: best) auto

lemma suggest_loop_origin:
  "suggest_loop haystack categories best = Some (i, sc) \<Longrightarrow>
     best = Some (i, sc) \<or> (\<exists>c\<in>set categories. is_active c \<and> category_id c = i)"
  by (induction categories arbitrary: best) (auto simp: Let_def split: if_splits)

text \<open>
  C10. The suggester returns no suggestion when the text is empty, when the list of
  categories is empty, and when every category of the list is inactive; in the last case
  the loop leaves \<open>best\<close> unset, so no score is compared. A suggestion is the id of an
  active category of the list.
\<close>

theorem suggestCategoryId_none:
  "(txt = [] \<or> categories = [] \<or> (\<forall>c\<in>set categories. \<not> is_active c) \<longrightarrow>
      suggestCategoryId txt categories = None)
   \<and> ((\<forall>c\<in>set categories. \<not> is_active c) \<longrightarrow>
      suggest_loop (normalizeText txt) categories None = None)
   \<and> (suggestCategoryId txt categories = Some i \<longrightarrow>
      (\<exists>c\<in>set categories. is_active c \<and> category_id c = i))"
proof (intro conjI impI)
  assume "txt = [] \<or> categories = [] \<or> (\<forall>c\<in>set categories. \<not> is_active c)"
  then show "suggestCategoryId txt categories = None"
    by (auto simp: suggestCategoryId_def suggest_loop_inactive)
next
  assume "\<forall>c\<in>set categories. \<not> is_active c"
  then show "suggest_loop (normalizeText txt) categories None = None"
    by (rule suggest_loop_inactive)
next
  assume "suggestCategoryId txt categories = Some i"
  then obtain sc where "suggest_loop (normalizeText txt) categories None = Some (i, sc)"
    by (auto simp: suggestCategoryId_def Let_def split: if_splits option.splits)
  from suggest_loop_origin [OF this]
  show "\<exists>c\<in>set categories. is_active c \<and> category_id c = i" by simp
qed

theorem suggestCategoryId_none_witness:
  "suggestCategoryId ''MIGROS Brot''
     [example_category 1 ''Lebensmittel'' False, example_category 2 ''Migros'' False] = None
   \<and> suggestCategoryId [] [example_category 1 ''Lebensmittel'' True] = None
   \<and> suggestCategoryId ''MIGROS Brot'' [] = None
   \<and> suggestCategoryId ''MIGROS Brot''
        [example_category 2 ''Migros'' False, example_category 1 ''Lebensmittel'' True] = Some 1"
  using suggestCategoryId_none [of "''MIGROS Brot''"
          "[example_category 1 ''Lebensmittel'' False, example_category 2 ''Migros'' False]"]
        suggestCategoryId_none [of "[]" "[example_category 1 ''Lebensmittel'' True]"]
        suggestCategoryId_none [of "''MIGROS Brot''" "[]"]
        suggestCategoryId_none [of "''MIGROS Brot''"
          "[example_category 2 ''Migros'' False, example_category 1 ''Lebensmittel'' True]" 1]
  by code_simp

section \<open>The date extractor\<close>

lemma findDate_Cons:
  "findDate (line # lines) =
     (case date_match line of None \<Rightarrow> findDate lines | Some (y, m, d) \<Rightarrow> toIsoDate y m d)"
  by (simp add: date_match_def Let_def split: option.splits prod.splits)

lemma findDate_no_match:
  "\<forall>l\<in>set lines. date_match l = None \<Longrightarrow> findDate lines = None"
  by (induction lines) (simp_all add: findDate_Cons del: findDate.simps(2))

lemma findDate_first:
  "i < length lines \<Longrightarrow> \<forall>j<i. date_match (lines ! j) = None \<Longrightarrow>
   date_match (lines ! i) = Some (y, m, d) \<Longrightarrow> findDate lines = toIsoDate y m d"
proof (induction lines arbitrary: i)
  case Nil
  then show ?case by simp
next
  case (Cons l ls)
  show ?case
  proof (cases i)
    case 0
    with Cons.prems show ?thesis by (simp add: findDate_Cons del: findDate.simps(2))
  next
    case (Suc k)
    with Cons.prems have l: "date_match l = None" by auto
    from Suc Cons.prems have "findDate ls = toIsoDate y m d"
      by (intro Cons.IH [of k]) auto
    with l show ?thesis by (simp add: findDate_Cons del: findDate.simps(2))
  qed
qed

text \<open>
  C1, as amended. The date extractor decides on the first line that matches a date
  pattern, and reads no line after it. When day, month and year of that match are not
  zero, the date built from them is returned; the triple is not checked to be a date of
  the calendar. When one of them is zero, no date is returned, whatever the later lines
  hold. When no line matches a pattern there is no date.
\<close>

theorem findDate_first_match:
  "((\<forall>l\<in>set lines. date_match l = None) \<longrightarrow> findDate lines = None)
   \<and> (i < length lines \<and> (\<forall>j<i. date_match (lines ! j) = None) \<and>
       date_match (lines ! i) = Some (y, m, d) \<longrightarrow>
       findDate lines = (if y = 0 \<or> m = 0 \<or> d = 0 then None else Some (iso_date y m d)))"
proof (intro conjI impI)
  assume "\<forall>l\<in>set lines. date_match l = None"
  then show "findDate lines = None" by (rule findDate_no_match)
next
  assume a: "i < length lines \<and> (\<forall>j<i. date_match (lines ! j) = None) \<and>
       date_match (lines ! i) = Some (y, m, d)"
  then have "findDate lines = toIsoDate y m d"
    by (intro findDate_first [of i]) simp_all
  then show "findDate lines = (if y = 0 \<or> m = 0 \<or> d = 0 then None else Some (iso_date y m d))"
    by (simp add: toIsoDate_def iso_date_def Let_def)
qed

theorem findDate_first_match_witness:
  "findDate [''Kasse 3''] = None
   \<and> findDate [''Kasse 3'', ''32.13.99'', ''05.03.24''] = Some ''1999-13-32''
   \<and> findDate [''Kasse 3'', ''00.01.2024'', ''05.03.24''] = None"
proof -
  have none: "date_match ''Kasse 3'' = None" by code_simp
  have some: "date_match ''32.13.99'' = Some (1999, 13, 32)" by code_simp
  have zero: "date_match ''00.01.2024'' = Some (2024, 1, 0)" by code_simp
  have iso: "iso_date 1999 13 32 = ''1999-13-32''" by code_simp
  have before: "\<forall>j<1. date_match ([''Kasse 3'', ''32.13.99'', ''05.03.24''] ! j) = None"
    using none by simp
  have before': "\<forall>j<1. date_match ([''Kasse 3'', ''00.01.2024'', ''05.03.24''] ! j) = None"
    using none by simp
  from findDate_first_match [of "[''Kasse 3'']"] none
  have "findDate [''Kasse 3''] = None" by simp
  moreover
  from findDate_first_match [of "[''Kasse 3'', ''32.13.99'', ''05.03.24'']" 1 1999 13 32]
    before some iso
  have "findDate [''Kasse 3'', ''32.13.99'', ''05.03.24''] = Some ''1999-13-32''" by simp
  moreover
  from findDate_first_match [of "[''Kasse 3'', ''00.01.2024'', ''05.03.24'']" 1 2024 1 0]
    before' zero
  have "findDate [''Kasse 3'', ''00.01.2024'', ''05.03.24''] = None" by simp
  ultimately show ?thesis by simp
qed

text \<open>
  C1, as stated, fails twice. The line \<open>32.13.99\<close> gives the date \<open>1999-13-32\<close>, not
  the date of the next line; and after the line \<open>00.01.2024\<close>, whose day is zero, the
  next line is not read: there is no date, although the next line alone gives one.
\<close>

theorem findDate_impossible_date_counterexample:
  "findDate [''32.13.99'', ''05.03.24''] = Some ''1999-13-32''
   \<and> findDate [''00.01.2024'', ''05.03.24''] = None
   \<and> findDate [''05.03.24''] = Some ''2024-03-05''"
  by code_simp

section \<open>The tax rate extractor\<close>

lemma findMwstRate_Cons:
  "findMwstRate (line # lines) =
     (if rx_test keywordPattern True line then
        (case percent_token line of
           None \<Rightarrow> findMwstRate lines
         | Some raw \<Rightarrow> (case parseDecimalInput (StringValue raw) of
                         None \<Rightarrow> findMwstRate lines
                       | Some parsed \<Rightarrow> Some parsed))
      else findMwstRate lines)"
  by (simp add: percent_token_def split: option.splits prod.splits)

lemma findMwstRate_no_keyword:
  "\<forall>l\<in>set lines. \<not> rx_test keywordPattern True l \<Longrightarrow> findMwstRate lines = None"
  by (induction lines) (simp_all add: findMwstRate_Cons del: findMwstRate.simps(2))

lemma findMwstRate_origin:
  "findMwstRate lines = Some v \<Longrightarrow>
     \<exists>l\<in>set lines. rx_test keywordPattern True l \<and>
       (\<exists>raw. percent_token l = Some raw \<and> parseDecimalInput (StringValue raw) = Some v)"
  by (induction lines)
     (auto simp: findMwstRate_Cons simp del: findMwstRate.simps(2)
           split: if_splits option.splits)

lemma findMwstRate_first:
  "i < length lines \<Longrightarrow>
   \<forall>j<i. \<not> (rx_test keywordPattern True (lines ! j) \<and> percent_token (lines ! j) \<noteq> None) \<Longrightarrow>
   rx_test keywordPattern True (lines ! i) \<Longrightarrow> percent_token (lines ! i) = Some raw \<Longrightarrow>
   parseDecimalInput (StringValue raw) = Some v \<Longrightarrow> findMwstRate lines = Some v"
proof (induction lines arbitrary: i)
  case Nil
  then show ?case by simp
next
  case (Cons l ls)
  show ?case
  proof (cases i)
    case 0
    with Cons.prems show ?thesis by (simp add: findMwstRate_Cons del: findMwstRate.simps(2))
  next
    case (Suc k)
    with Cons.prems have l: "\<not> (rx_test keywordPattern True l \<and> percent_token l \<noteq> None)"
      by auto
    from Suc Cons.prems have "findMwstRate ls = Some v"
      by (intro Cons.IH [of k]) auto
    with l show ?thesis
      by (auto simp: findMwstRate_Cons simp del: findMwstRate.simps(2) split: option.splits)
  qed
qed

text \<open>
  C6, as amended. The tax rate extractor reads lines that contain one of the keywords
  mwst, ust, vat, iva in any letter case, and no other line: without such a line there is
  no rate, and a rate that is returned is the number of the leftmost percentage token of
  such a line, wherever in the line the token stands. The first such line with a
  percentage token gives the rate. The line \<open>MWST 8.1%\<close> gives the number 8.1.
\<close>

theorem findMwstRate_keyword_lines:
  "findMwstRate [''MWST 8.1%''] = Some (round64 (81 / 10))
   \<and> ((\<forall>l\<in>set lines. \<not> rx_test keywordPattern True l) \<longrightarrow> findMwstRate lines = None)
   \<and> (findMwstRate lines = Some v \<longrightarrow>
        (\<exists>l\<in>set lines. rx_test keywordPattern True l \<and>
           (\<exists>raw. percent_token l = Some raw \<and> parseDecimalInput (StringValue raw) = Some v)))
   \<and> (i < length lines \<and>
       (\<forall>j<i. \<not> (rx_test keywordPattern True (lines ! j) \<and> percent_token (lines ! j) \<noteq> None)) \<and>
       rx_test keywordPattern True (lines ! i) \<and> percent_token (lines ! i) = Some raw \<and>
       parseDecimalInput (StringValue raw) = Some w \<longrightarrow> findMwstRate lines = Some w)"
proof (intro conjI impI)
  show "findMwstRate [''MWST 8.1%''] = Some (round64 (81 / 10))" by code_simp
qed (use findMwstRate_no_keyword findMwstRate_origin findMwstRate_first in blast)+

theorem findMwstRate_keyword_lines_witness:
  "findMwstRate [''Rabatt 10%'', ''Summe 5.00''] = None
   \<and> findMwstRate [''Rabatt 10%'', ''inkl. MwSt 2,6 % 0.50'', ''VAT 7.7%''] = Some (round64 (26 / 10))"
proof -
  let ?ls = "[''Rabatt 10%'', ''inkl. MwSt 2,6 % 0.50'', ''VAT 7.7%'']"
  have no_kw: "\<forall>l\<in>set [''Rabatt 10%'', ''Summe 5.00'']. \<not> rx_test keywordPattern True l"
    by code_simp
  have first: "\<not> rx_test keywordPattern True ''Rabatt 10%''" by code_simp
  have kw: "rx_test keywordPattern True ''inkl. MwSt 2,6 % 0.50''" by code_simp
  have tok: "percent_token ''inkl. MwSt 2,6 % 0.50'' = Some ''2,6''" by code_simp
  have val: "parseDecimalInput (StringValue ''2,6'') = Some (round64 (26 / 10))" by code_simp
  have before:
    "\<forall>j<1. \<not> (rx_test keywordPattern True (?ls ! j) \<and> percent_token (?ls ! j) \<noteq> None)"
    using first by simp
  from findMwstRate_keyword_lines [of "[''Rabatt 10%'', ''Summe 5.00'']"] no_kw
  have "findMwstRate [''Rabatt 10%'', ''Summe 5.00''] = None" by blast
  moreover
  from findMwstRate_keyword_lines [of ?ls _ 1 "''2,6''" "round64 (26 / 10)"] before kw tok val
  have "findMwstRate ?ls = Some (round64 (26 / 10))"
    by simp
  ultimately show ?thesis by simp
qed

text \<open>
  C6, as stated, fails: the token that is read need not end the line. In the first line
  below no percentage token ends the line and a rate is returned; in the second the token
  that ends the line is \<open>2.5%\<close>, and the rate is 7.7.
\<close>

theorem findMwstRate_trailing_counterexample:
  "findMwstRate [''MWST 8.1% inkl''] = Some (round64 (81 / 10))
   \<and> trailing_percent_token ''MWST 8.1% inkl'' = None
   \<and> findMwstRate [''Mwst 7,7% 2.5%''] = Some (round64 (77 / 10))
   \<and> trailing_percent_token ''Mwst 7,7% 2.5%'' = Some ''2.5''"
  by code_simp

section \<open>The description\<close>

lemma find_first_index:
  "i < length xs \<Longrightarrow> P (xs ! i) \<Longrightarrow> \<forall>j<i. \<not> P (xs ! j) \<Longrightarrow> find P xs = Some (xs ! i)"
proof (induction xs arbitrary: i)
  case Nil
  then show ?case by simp
next
  case (Cons x xs)
  show ?case
  proof (cases i)
    case 0
    with Cons.prems show ?thesis by simp
  next
    case (Suc k)
    with Cons.prems have "\<not> P x" by auto
    moreover from Suc Cons.prems have "find P xs = Some (xs ! k)"
      by (intro Cons.IH) auto
    ultimately show ?thesis using Suc by simp
  qed
qed

lemma description_eq:
  "description (parseReceiptText txt) =
     (case find description_line (receipt_lines txt) of
        Some d \<Rightarrow> Some d
      | None \<Rightarrow> (case extractItems (receipt_lines txt) of [] \<Rightarrow> None | item # _ \<Rightarrow> Some item))"
proof -
  have "description_line = (\<lambda>line. isTextLine line \<and> \<not> isNoiseLine line)"
    by (simp add: description_line_def fun_eq_iff)
  then show ?thesis by (simp add: parseReceiptText_def Let_def)
qed

text \<open>
  C8, as amended. The description is the first normalised line that holds a letter, is
  longer than three characters and is not noise. When there is no such line, it is the
  first extracted item; it is absent exactly when there is neither.
\<close>

theorem description_first_text_line:
  "(i < length (receipt_lines txt) \<and> description_line (receipt_lines txt ! i) \<and>
    (\<forall>j<i. \<not> description_line (receipt_lines txt ! j)) \<longrightarrow>
      description (parseReceiptText txt) = Some (receipt_lines txt ! i))
   \<and> ((\<forall>l\<in>set (receipt_lines txt). \<not> description_line l) \<longrightarrow>
      description (parseReceiptText txt) =
        (case extractItems (receipt_lines txt) of [] \<Rightarrow> None | item # _ \<Rightarrow> Some item))
   \<and> (description (parseReceiptText txt) = None \<longleftrightarrow>
        (\<forall>l\<in>set (receipt_lines txt). \<not> description_line l) \<and> extractItems (receipt_lines txt) = [])"
proof (intro conjI impI)
  assume "i < length (receipt_lines txt) \<and> description_line (receipt_lines txt ! i) \<and>
    (\<forall>j<i. \<not> description_line (receipt_lines txt ! j))"
  then have "find description_line (receipt_lines txt) = Some (receipt_lines txt ! i)"
    by (intro find_first_index) auto
  then show "description (parseReceiptText txt) = Some (receipt_lines txt ! i)"
    by (simp add: description_eq)
next
  assume "\<forall>l\<in>set (receipt_lines txt). \<not> description_line l"
  then have "find description_line (receipt_lines txt) = None"
    by (simp add: find_None_iff)
  then show "description (parseReceiptText txt) =
      (case extractItems (receipt_lines txt) of [] \<Rightarrow> None | item # _ \<Rightarrow> Some item)"
    by (simp add: description_eq)
next
  show "description (parseReceiptText txt) = None \<longleftrightarrow>
        (\<forall>l\<in>set (receipt_lines txt). \<not> description_line l) \<and> extractItems (receipt_lines txt) = []"
    by (auto simp: description_eq find_None_iff find_Some_iff split: option.splits list.splits)
qed

theorem description_first_text_line_witness:
  "description (parseReceiptText (''12.50'' @ [CHR 0x0A] @ ''www.shop.ch'' @ [CHR 0x0A] @ ''Brot 3.20''))
     = Some ''www.shop.ch''
   \<and> description (parseReceiptText ''12.50'') = None"
proof -
  let ?t = "''12.50'' @ [CHR 0x0A] @ ''www.shop.ch'' @ [CHR 0x0A] @ ''Brot 3.20''"
  have ls: "receipt_lines ?t = [''12.50'', ''www.shop.ch'', ''Brot 3.20'']" by code_simp
  have a: "\<not> description_line ''12.50''" by code_simp
  have b: "description_line ''www.shop.ch''" by code_simp
  have ls2: "receipt_lines ''12.50'' = [''12.50'']" by code_simp
  have it: "extractItems [''12.50''] = []" by code_simp
  from description_first_text_line [of 1 ?t] a b
  have "description (parseReceiptText ?t) = Some ''www.shop.ch''"
    unfolding ls by simp
  moreover
  from description_first_text_line [of _ "''12.50''"] a it
  have "description (parseReceiptText ''12.50'') = None"
    unfolding ls2 by simp
  ultimately show ?thesis by simp
qed

text \<open>
  C8, as stated, fails: a line with a web address is not an item candidate, and it is the
  description although an item candidate follows.
\<close>

theorem description_contact_line_counterexample:
  "description (parseReceiptText (''www.shop.ch'' @ [CHR 0x0A] @ ''Brot 3.20'')) = Some ''www.shop.ch''
   \<and> \<not> looksLikeItemLine ''www.shop.ch''
   \<and> looksLikeItemLine ''Brot 3.20'' \<and> \<not> isPriceOnlyLine ''Brot 3.20'' \<and> \<not> isNoiseLine ''Brot 3.20''"
  by code_simp

section \<open>The items and the note\<close>




















section \<open>Rounding to binary64\<close>

lemma pow2_powi: "pow2 k = 2 powi k"
proof (cases "0 \<le> k")
  case True
  then show ?thesis by (simp add: pow2_def power_int_def)
next
  case False
  then show ?thesis by (simp add: pow2_def power_int_def inverse_eq_divide power_one_over)
qed

lemma pow2_pos: "0 < pow2 k"
  by (simp add: pow2_powi)

lemma pow2_mono: "j \<le> k \<Longrightarrow> pow2 j \<le> pow2 k"
  by (simp add: pow2_powi power_int_increasing)

lemma pow2_strict_mono: "j < k \<Longrightarrow> pow2 j < pow2 k"
  by (simp add: pow2_powi power_int_strict_increasing)



lemma round_half_even_upper: "of_int (round_half_even y) \<le> y + 1 / 2"
  unfolding round_half_even_def Let_def by (auto simp: not_less) linarith+

lemma round_half_even_lower: "y - 1 / 2 \<le> of_int (round_half_even y)"
  unfolding round_half_even_def Let_def by (auto simp: not_less) linarith+

lemma round_half_even_nonneg: "0 \<le> y \<Longrightarrow> 0 \<le> round_half_even y"
  unfolding round_half_even_def Let_def by auto


lemma ilog2_lower:
  assumes "0 < a"
  shows "pow2 (ilog2 a) \<le> a"
proof -
  obtain n d where q: "quotient_of a = (n, d)" by (cases "quotient_of a")
  then have d: "0 < d" and a: "a = of_int n / of_int d"
    by (auto dest: quotient_of_denom_pos quotient_of_div)
  from assms a d have n: "0 < n" by (simp add: zero_less_divide_iff)
  let ?k = "bitlen n - bitlen d"
  show ?thesis
  proof (cases "pow2 ?k \<le> a")
    case True
    with q show ?thesis by (simp add: ilog2_def)
  next
    case False
    from bitlen_bounds [OF n] have "2 ^ nat (bitlen n - 1) \<le> n" by simp
    then have n1: "(2::rat) ^ nat (bitlen n - 1) \<le> of_int n"
      by (metis of_int_le_iff of_int_numeral of_int_power)
    from bitlen_bounds [OF d] have "d < 2 ^ nat (bitlen d)" by simp
    then have d1: "of_int d < (2::rat) ^ nat (bitlen d)"
      by (metis of_int_less_iff of_int_numeral of_int_power)
    from n d have bn: "1 \<le> bitlen n" and bd: "1 \<le> bitlen d"
      by (simp_all add: bitlen_alt_def)
    have "pow2 (?k - 1) = pow2 (bitlen n - 1) / pow2 (bitlen d)"
      by (simp add: pow2_powi power_int_diff [symmetric] algebra_simps)
    also have "\<dots> = 2 ^ nat (bitlen n - 1) / 2 ^ nat (bitlen d)"
      using bn bd by (simp add: pow2_powi power_int_def)
    also have "\<dots> \<le> of_int n / 2 ^ nat (bitlen d)"
      using n1 by (simp add: divide_right_mono)
    also have "\<dots> \<le> of_int n / of_int d"
      using d1 d n by (intro divide_left_mono) (simp_all add: less_imp_le)
    finally have "pow2 (?k - 1) \<le> a" using a by simp
    with q False show ?thesis by (simp add: ilog2_def)
  qed
qed

lemma round64_small:
  assumes "0 \<le> x" and "x \<le> 999 / 10"
  shows "\<exists>r. round64 x = Fin r \<and> 0 \<le> r \<and> r < 100"
proof (cases "x = 0")
  case True
  then show ?thesis by (simp add: round64_def)
next
  case False
  with assms have pos: "0 < x" by simp
  define e where "e = max (ilog2 x) (- 1022)"
  define q where "q = pow2 (e - 52)"
  define m where "m = round_half_even (x / q)"
  have "ilog2 x < 7"
  proof (rule ccontr)
    assume "\<not> ilog2 x < 7"
    then have "pow2 7 \<le> pow2 (ilog2 x)" by (intro pow2_mono) simp
    also have "\<dots> \<le> x" by (rule ilog2_lower [OF pos])
    finally show False using assms by (simp add: pow2_def)
  qed
  then have e: "e \<le> 6" by (simp add: e_def)
  have q0: "0 < q" by (simp add: q_def pow2_pos)
  have "q \<le> pow2 (- 46)" unfolding q_def using e by (intro pow2_mono) simp
  then have q1: "q \<le> 1 / 2 ^ 46" by (simp add: pow2_def)
  have m0: "0 \<le> m" unfolding m_def using pos q0
    by (intro round_half_even_nonneg) simp
  have "of_int m \<le> x / q + 1 / 2" unfolding m_def by (rule round_half_even_upper)
  then have "of_int m * q \<le> (x / q + 1 / 2) * q"
    using q0 by (simp add: mult_right_mono)
  also have "\<dots> = x + q / 2" using q0 by (simp add: field_simps)
  also have "\<dots> < 100" using assms q1 by simp
  finally have up: "of_int m * q < 100" .
  have lo: "0 \<le> of_int m * q" using m0 q0 by simp
  have "round64 x = Fin (of_int m * q)"
    using pos e by (simp add: round64_def Let_def e_def [symmetric] q_def [symmetric] m_def [symmetric])
  with up lo show ?thesis by simp
qed







lemma round64_pos_shape:
  assumes "0 < x"
  shows "round64 x = PInf \<or>
         (\<exists>e. - 1022 \<le> e \<and> round64 x = Fin (of_int (round_half_even (x / pow2 (e - 52))) * pow2 (e - 52)))"
proof -
  define e where "e = max (ilog2 x) (- 1022)"
  have e: "- 1022 \<le> e" by (simp add: e_def)
  from assms have "round64 x = PInf \<or>
      round64 x = Fin (of_int (round_half_even (x / pow2 (e - 52))) * pow2 (e - 52))"
    by (simp add: round64_def Let_def e_def [symmetric])
  with e show ?thesis by blast
qed




lemma round64_nonneg:
  assumes "0 \<le> x"
  shows "round64 x = PInf \<or> (\<exists>r. round64 x = Fin r \<and> 0 \<le> r)"
proof (cases "x = 0")
  case True
  then show ?thesis by (simp add: round64_def)
next
  case False
  with assms have pos: "0 < x" by simp
  from round64_pos_shape [OF pos] show ?thesis
  proof
    assume "round64 x = PInf"
    then show ?thesis by simp
  next
    assume "\<exists>e. - 1022 \<le> e \<and>
      round64 x = Fin (of_int (round_half_even (x / pow2 (e - 52))) * pow2 (e - 52))"
    then obtain e
      where r: "round64 x = Fin (of_int (round_half_even (x / pow2 (e - 52))) * pow2 (e - 52))"
      by blast
    have "0 \<le> x / pow2 (e - 52)" using pos pow2_pos [of "e - 52"] by simp
    then have "0 \<le> round_half_even (x / pow2 (e - 52))" by (rule round_half_even_nonneg)
    then have "0 \<le> of_int (round_half_even (x / pow2 (e - 52))) * pow2 (e - 52)"
      using pow2_pos [of "e - 52"] by simp
    with r show ?thesis by simp
  qed
qed



section \<open>The invariant of the suggestion\<close>

lemma parseDecimalInput_finite:
  "parseDecimalInput v = Some n \<Longrightarrow> \<exists>r. n = Fin r"
  by (cases v) (auto simp: Let_def split: if_splits elim: isFinite.elims)

lemma amount_candidate_positive:
  assumes "amount_candidate line raw = Some c"
  shows "\<exists>r. cand_value c = Fin r \<and> 0 < r"
proof -
  from assms obtain parsed
    where p: "parseDecimalInput (StringValue raw) = Some parsed"
      and t: "truthy parsed" and n: "\<not> js_le parsed (Fin 0)" and v: "cand_value c = parsed"
    by (auto simp: amount_candidate_def Let_def split: option.splits if_splits)
  from parseDecimalInput_finite [OF p] obtain r where r: "parsed = Fin r" by blast
  with t n have "0 < r" by (auto simp: truthy_def js_le_def)
  with r v show ?thesis by simp
qed

lemma set_insert_by: "set (insert_by cmp x ys) = insert x (set ys)"
  by (induction ys) auto

lemma set_foldl_insert_by:
  "set (foldl (\<lambda>sorted x. insert_by cmp x sorted) acc xs) = set acc \<union> set xs"
  by (induction xs arbitrary: acc) (auto simp: set_insert_by)

lemma set_sort_by: "set (sort_by cmp xs) = set xs"
  by (simp add: sort_by_def set_foldl_insert_by)

lemma findAmount_candidate:
  assumes "findAmount lines = Some v"
  shows "\<exists>c\<in>set (concat (map line_candidates lines)). cand_value c = v"
proof -
  let ?cs = "concat (map line_candidates lines)"
  let ?sorted = "sort_by (\<lambda>a b. js_sub (cand_score b) (cand_score a)) ?cs"
  from assms obtain c rest where s: "?sorted = c # rest" and v: "cand_value c = v"
    by (auto simp: findAmount_def Let_def split: if_splits list.splits)
  have "c \<in> set ?sorted" by (simp add: s)
  then have "c \<in> set ?cs" by (simp only: set_sort_by)
  with v show ?thesis by blast
qed

lemma findAmount_positive:
  assumes "findAmount lines = Some v"
  shows "\<exists>r. v = Fin r \<and> 0 < r"
proof -
  from findAmount_candidate [OF assms] obtain c
    where c: "c \<in> set (concat (map line_candidates lines))" and v: "cand_value c = v"
    by blast
  from c obtain line raw where "amount_candidate line raw = Some c"
    by (auto simp: line_candidates_def List.map_filter_def)
  from amount_candidate_positive [OF this] v show ?thesis by simp
qed

lemma rep_caps:
  assumes "\<And>st st'. st' \<in> set (f st) \<Longrightarrow> snd (snd st') = snd (snd st)"
  shows "st' \<in> set (rep f k lo st) \<Longrightarrow> snd (snd st') = snd (snd st)"
proof (induction k arbitrary: lo st)
  case 0
  then show ?case by (simp split: if_splits)
next
  case (Suc k)
  from Suc.prems consider
    (more) st1 where "st1 \<in> set (f st)" and "st' \<in> set (rep f k (lo - 1) st1)"
    | (stop) "st' = st"
    by (auto split: if_splits)
  then show ?case
  proof cases
    case more
    from Suc.IH [OF more(2)] assms [OF more(1)] show ?thesis by simp
  next
    case stop
    then show ?thesis by simp
  qed
qed

lemma rmatch_caps:
  "no_group r \<Longrightarrow> st' \<in> set (rmatch r ci st) \<Longrightarrow> snd (snd st') = snd (snd st)"
proof (induction r arbitrary: st st')
  case (Atom cs)
  then show ?case by (auto split: list.splits if_splits)
next
  case (Seq a b)
  from Seq.prems obtain st1 where "st1 \<in> set (rmatch a ci st)" and "st' \<in> set (rmatch b ci st1)"
    by auto
  moreover from Seq.prems(1) have "no_group a" and "no_group b" by simp_all
  ultimately have "snd (snd st1) = snd (snd st)" and "snd (snd st') = snd (snd st1)"
    using Seq.IH by blast+
  then show ?case by simp
next
  case (Alt a b)
  from Alt.prems(2) have "st' \<in> set (rmatch a ci st) \<or> st' \<in> set (rmatch b ci st)"
    by simp
  moreover from Alt.prems(1) have "no_group a" and "no_group b" by simp_all
  ultimately show ?case using Alt.IH by blast
next
  case (Rep lo hi r)
  from Rep.prems(1) have "no_group r" by simp
  with Rep.IH have "\<And>st st'. st' \<in> set (rmatch r ci st) \<Longrightarrow> snd (snd st') = snd (snd st)"
    by blast
  from rep_caps [of "rmatch r ci", OF this] Rep.prems(2) show ?case by simp
next
  case (Grp r)
  then show ?case by simp
next
  case Bol
  then show ?case by (simp split: if_splits)
next
  case Eol
  then show ?case by (simp split: if_splits)
next
  case Eps
  then show ?case by simp
qed

lemma rate_number_shape:
  assumes "st' \<in> set (rmatch (Seq (Rep 1 (Some 2) digit)
                              (ropt (Seq (Atom [Lit CHR ''.'', Lit CHR '','']) digit)))
                         False (p, s, cs))"
  shows "snd (snd st') = cs \<and> rate_token (take (fst st' - p) s)"
  using assms
  by (auto simp: numeral_2_eq_2 cls_match_def split: list.splits if_splits)

lemma rmatch_Seq_state:
  "st' \<in> set (rmatch (Seq a b) ci st) \<Longrightarrow>
     \<exists>st1\<in>set (rmatch a ci st). st' \<in> set (rmatch b ci st1)"
  by auto

lemma rmatch_Grp_state:
  assumes "st' \<in> set (rmatch (Grp r) ci (p, s, cs))"
  shows "\<exists>st0\<in>set (rmatch r ci (p, s, cs)). snd (snd st') = snd (snd st0) @ [take (fst st0 - p) s]"
proof -
  from assms obtain st0 where in0: "st0 \<in> set (rmatch r ci (p, s, cs))"
    and eq: "st' = (case st0 of (p', s', cs') \<Rightarrow> (p', s', cs' @ [take (p' - p) s]))"
    by auto
  from eq have "snd (snd st') = snd (snd st0) @ [take (fst st0 - p) s]"
    by (cases st0) simp
  with in0 show ?thesis by blast
qed

lemma exec_at_state:
  "exec_at r ci p s = Some (p0, m, caps) \<Longrightarrow>
     \<exists>p1 s1 e rest. (e, rest, caps) \<in> set (rmatch r ci (p1, s1, []))"
proof (induction s arbitrary: p)
  case Nil
  then obtain e rest sts where "rmatch r ci (p, [], []) = (e, rest, caps) # sts"
    by (auto split: list.splits)
  then have "(e, rest, caps) \<in> set (rmatch r ci (p, [], []))" by simp
  then show ?case by blast
next
  case (Cons c s)
  show ?case
  proof (cases "rmatch r ci (p, c # s, [])")
    case Nil
    with Cons.prems have "exec_at r ci (Suc p) s = Some (p0, m, caps)" by simp
    from Cons.IH [OF this] show ?thesis .
  next
    case (Cons st sts)
    obtain e rest cs where st: "st = (e, rest, cs)" by (cases st)
    with Cons Cons.prems have "cs = caps" by simp
    with Cons st have "(e, rest, caps) \<in> set (rmatch r ci (p, c # s, []))" by simp
    then show ?thesis by blast
  qed
qed

lemma percent_token_shape:
  assumes "percent_token line = Some raw"
  shows "rate_token raw"
proof -
  let ?A = "Seq (Rep 1 (Some 2) digit) (ropt (Seq (Atom [Lit CHR ''.'', Lit CHR '','']) digit))"
  let ?T = "Seq (rstar space) (chr CHR ''%'')"
  have pat: "percentPattern = Seq (Grp ?A) ?T" by (simp add: percentPattern_def)
  from assms obtain p0 m caps
    where ex: "exec_at percentPattern False 0 line = Some (p0, m, caps)" and raw: "raw = caps ! 0"
    by (auto simp: percent_token_def rx_exec_def split: option.splits)
  from exec_at_state [OF ex] obtain p1 s1 e rest
    where "(e, rest, caps) \<in> set (rmatch (Seq (Grp ?A) ?T) False (p1, s1, []))"
    unfolding pat by blast
  from rmatch_Seq_state [OF this]
  obtain st1 where g: "st1 \<in> set (rmatch (Grp ?A) False (p1, s1, []))"
    and t: "(e, rest, caps) \<in> set (rmatch ?T False st1)"
    by blast
  from rmatch_Grp_state [OF g]
  obtain st0 where a: "st0 \<in> set (rmatch ?A False (p1, s1, []))"
    and st1: "snd (snd st1) = snd (snd st0) @ [take (fst st0 - p1) s1]"
    by blast
  from rate_number_shape [OF a]
  have "snd (snd st0) = []" and tok: "rate_token (take (fst st0 - p1) s1)" by simp_all
  with st1 have "snd (snd st1) = [take (fst st0 - p1) s1]" by simp
  moreover have "no_group ?T" by simp
  from rmatch_caps [OF this t] have "caps = snd (snd st1)" by simp
  ultimately show ?thesis using tok raw by simp
qed

lemma digit_facts:
  assumes "is_digit c"
  shows "\<not> is_space c" "c \<noteq> CHR 0x27" "c \<noteq> CHR '',''" "c \<noteq> CHR ''.''" "c \<noteq> CHR ''+''"
    "c \<noteq> CHR ''-''" "c \<noteq> CHR ''I''" "c \<noteq> CHR ''x''" "c \<noteq> CHR ''X''" "c \<noteq> CHR ''o''"
    "c \<noteq> CHR ''O''" "c \<noteq> CHR ''b''" "c \<noteq> CHR ''B''" "c \<noteq> CHR ''e''" "c \<noteq> CHR ''E''"
    "0 \<le> digit_val c" "digit_val c \<le> 9"
  using assms by (auto simp: is_digit_def is_space_def digit_val_def)

lemma not_digit: "\<not> is_digit CHR ''.''" "\<not> is_digit CHR '',''"
  by (simp_all add: is_digit_def)

lemma not_space: "\<not> is_space CHR ''.''" "\<not> is_space CHR '',''"
  by (simp_all add: is_space_def)

lemmas number_defs = Number_def NonDecimalIntegerLiteral_def StrDecimalLiteral_def
  unsigned_literal_def StrUnsignedDecimalLiteral_def ExponentPart_def SignedInteger_def
  digits_val_def all_digits_def trim_def Let_def

lemma Number_rate_1:
  "is_digit a \<Longrightarrow> Number [a] = round64 (of_int (digit_val a))"
  by (simp add: number_defs digit_facts not_digit)

lemma Number_rate_2:
  "is_digit a \<Longrightarrow> is_digit b \<Longrightarrow> Number [a, b] = round64 (of_int (10 * digit_val a + digit_val b))"
  by (simp add: number_defs digit_facts not_digit)

lemma Number_rate_3:
  "is_digit a \<Longrightarrow> is_digit d \<Longrightarrow>
   Number [a, CHR ''.'', d] = round64 (of_int (10 * digit_val a + digit_val d) / 10)"
  by (simp add: number_defs digit_facts not_digit)

lemma Number_rate_4:
  "is_digit a \<Longrightarrow> is_digit b \<Longrightarrow> is_digit d \<Longrightarrow>
   Number [a, b, CHR ''.'', d] =
     round64 (of_int (10 * (10 * digit_val a + digit_val b) + digit_val d) / 10)"
  by (simp add: number_defs digit_facts not_digit)

lemma small_int:
  fixes v :: int
  assumes "0 \<le> v" and "v \<le> 99"
  shows "0 \<le> (of_int v :: rat)" and "(of_int v :: rat) \<le> 999 / 10"
proof -
  from assms(1) show "0 \<le> (of_int v :: rat)" by simp
  from assms(2) have "(of_int v :: rat) \<le> of_int 99" by (simp only: of_int_le_iff)
  then show "(of_int v :: rat) \<le> 999 / 10" by simp
qed

lemma small_tenth:
  fixes v :: int
  assumes "0 \<le> v" and "v \<le> 999"
  shows "0 \<le> (of_int v :: rat) / 10" and "(of_int v :: rat) / 10 \<le> 999 / 10"
proof -
  from assms(1) show "0 \<le> (of_int v :: rat) / 10" by simp
  from assms(2) have "(of_int v :: rat) \<le> of_int 999" by (simp only: of_int_le_iff)
  then show "(of_int v :: rat) / 10 \<le> 999 / 10" by simp
qed

lemma parse_rate_token:
  assumes "rate_token w"
  shows "\<exists>r. parseDecimalInput (StringValue w) = Some (Fin r) \<and> 0 \<le> r \<and> r < 100"
proof -
  have fin: "\<exists>r. (if isFinite (round64 x) then Some (round64 x) else None) = Some (Fin r)
                 \<and> 0 \<le> r \<and> r < 100"
    if "0 \<le> x" and "x \<le> 999 / 10" for x
    using round64_small [OF that] by auto
  from assms consider
    (one) a where "w = [a]" "is_digit a"
    | (two) a b where "w = [a, b]" "is_digit a" "is_digit b"
    | (three) a c d where "w = [a, c, d]" "is_digit a" "c = CHR ''.'' \<or> c = CHR '',''" "is_digit d"
    | (four) a b c d where "w = [a, b, c, d]" "is_digit a" "is_digit b"
        "c = CHR ''.'' \<or> c = CHR '',''" "is_digit d"
    by (cases w rule: rate_token.cases) auto
  then show ?thesis
  proof cases
    case one
    have parse: "parseDecimalInput (StringValue [a]) =
            (if isFinite (Number [a]) then Some (Number [a]) else None)"
      using one by (simp add: trim_def remove_all_def digit_facts)
    from digit_facts(16,17) [OF one(2)]
    have "0 \<le> digit_val a" and "digit_val a \<le> 99" by simp_all
    from fin [OF small_int [OF this]] show ?thesis
      unfolding one(1) parse Number_rate_1 [OF one(2)] .
  next
    case two
    have parse: "parseDecimalInput (StringValue [a, b]) =
            (if isFinite (Number [a, b]) then Some (Number [a, b]) else None)"
      using two by (simp add: trim_def remove_all_def digit_facts)
    from digit_facts(16,17) [OF two(2)] digit_facts(16,17) [OF two(3)]
    have "0 \<le> 10 * digit_val a + digit_val b" and "10 * digit_val a + digit_val b \<le> 99"
      by simp_all
    from fin [OF small_int [OF this]] show ?thesis
      unfolding two(1) parse Number_rate_2 [OF two(2,3)] .
  next
    case three
    have parse: "parseDecimalInput (StringValue [a, c, d]) =
            (if isFinite (Number [a, CHR ''.'', d]) then Some (Number [a, CHR ''.'', d]) else None)"
      using three by (auto simp: trim_def remove_all_def digit_facts not_space)
    from digit_facts(16,17) [OF three(2)] digit_facts(16,17) [OF three(4)]
    have "0 \<le> 10 * digit_val a + digit_val d" and "10 * digit_val a + digit_val d \<le> 999"
      by simp_all
    from fin [OF small_tenth [OF this]] show ?thesis
      unfolding three(1) parse Number_rate_3 [OF three(2,4)] .
  next
    case four
    have parse: "parseDecimalInput (StringValue [a, b, c, d]) =
            (if isFinite (Number [a, b, CHR ''.'', d]) then Some (Number [a, b, CHR ''.'', d])
             else None)"
      using four by (auto simp: trim_def remove_all_def digit_facts not_space)
    from digit_facts(16,17) [OF four(2)] digit_facts(16,17) [OF four(3)]
      digit_facts(16,17) [OF four(5)]
    have "0 \<le> 10 * (10 * digit_val a + digit_val b) + digit_val d"
      and "10 * (10 * digit_val a + digit_val b) + digit_val d \<le> 999"
      by simp_all
    from fin [OF small_tenth [OF this]] show ?thesis
      unfolding four(1) parse Number_rate_4 [OF four(2,3,5)] .
  qed
qed

text \<open>
  C7. In the suggestion for any text, an amount is a finite number greater than zero, and a
  tax rate is a finite number that is at least 0 and less than 100.
\<close>

theorem parseReceiptText_invariant:
  "(amount (parseReceiptText txt) = Some v \<longrightarrow> (\<exists>r. v = Fin r \<and> 0 < r))
   \<and> (mwstRate (parseReceiptText txt) = Some w \<longrightarrow> (\<exists>r. w = Fin r \<and> 0 \<le> r \<and> r < 100))"
proof (intro conjI impI)
  assume "amount (parseReceiptText txt) = Some v"
  then have "findAmount (receipt_lines txt) = Some v"
    by (simp add: parseReceiptText_def Let_def)
  then show "\<exists>r. v = Fin r \<and> 0 < r" by (rule findAmount_positive)
next
  assume "mwstRate (parseReceiptText txt) = Some w"
  then have "findMwstRate (receipt_lines txt) = Some w"
    by (simp add: parseReceiptText_def Let_def)
  from findMwstRate_origin [OF this] obtain raw line
    where "percent_token line = Some raw" and p: "parseDecimalInput (StringValue raw) = Some w"
    by blast
  from percent_token_shape [OF this(1)] have "rate_token raw" .
  from parse_rate_token [OF this] p show "\<exists>r. w = Fin r \<and> 0 \<le> r \<and> r < 100" by auto
qed

theorem parseReceiptText_invariant_witness:
  "amount (parseReceiptText (''TOTAL CHF 5.00'' @ [CHR 0x0A] @ ''MWST 2.6%'')) = Some (Fin 5)
   \<and> mwstRate (parseReceiptText (''TOTAL CHF 5.00'' @ [CHR 0x0A] @ ''MWST 2.6%''))
       = Some (Fin (5854679515581645 / 2251799813685248))
   \<and> (\<exists>r. Fin 5 = Fin r \<and> 0 < r)
   \<and> (\<exists>r. Fin (5854679515581645 / 2251799813685248) = Fin r \<and> 0 \<le> r \<and> r < 100)"
proof -
  let ?t = "''TOTAL CHF 5.00'' @ [CHR 0x0A] @ ''MWST 2.6%''"
  have a: "amount (parseReceiptText ?t) = Some (Fin 5)" by code_simp
  have m: "mwstRate (parseReceiptText ?t) = Some (Fin (5854679515581645 / 2251799813685248))"
    by code_simp
  from parseReceiptText_invariant [of ?t "Fin 5" "Fin (5854679515581645 / 2251799813685248)"] a m
  show ?thesis by blast
qed

section \<open>The amount extractor\<close>

subsection \<open>The order of the numbers\<close>

lemma js_lt_irrefl: "\<not> js_lt a a"
  by (cases a) simp_all

lemma js_lt_trans: "js_lt a b \<Longrightarrow> js_lt b c \<Longrightarrow> js_lt a c"
  by (cases a; cases b; cases c) simp_all

lemma js_lt_neg_trans:
  "a \<noteq> NaN \<Longrightarrow> b \<noteq> NaN \<Longrightarrow> c \<noteq> NaN \<Longrightarrow> \<not> js_lt a b \<Longrightarrow> \<not> js_lt b c \<Longrightarrow> \<not> js_lt a c"
  by (cases a; cases b; cases c) simp_all



subsection \<open>The first element of highest score\<close>

lemma find_Cons_no: "\<not> P b \<Longrightarrow> find P (b # ys) = find P ys"
  by simp

lemma find_Cons_yes: "P b \<Longrightarrow> find P (b # ys) = Some b"
  by simp

lemma first_max_running:
  assumes "\<forall>x\<in>set (b # xs). f x \<noteq> NaN"
  shows "first_max f (b # xs) = Some (foldl (\<lambda>b x. if js_lt (f b) (f x) then x else b) b xs)"
  using assms
proof (induction xs arbitrary: b)
  case Nil
  then show ?case by (simp add: first_max_def js_lt_irrefl)
next
  case (Cons x xs)
  let ?pick = "\<lambda>b x. if js_lt (f b) (f x) then x else b"
  let ?Q = "\<lambda>zs z. \<forall>y\<in>set zs. \<not> js_lt (f z) (f y)"
  from Cons.prems have nb: "f b \<noteq> NaN" and nx: "f x \<noteq> NaN"
    and nxs: "\<forall>y\<in>set xs. f y \<noteq> NaN" by simp_all
  show ?case
  proof (cases "js_lt (f b) (f x)")
    case True
    from Cons.prems have "\<forall>y\<in>set (x # xs). f y \<noteq> NaN" by simp
    from Cons.IH [OF this]
    have ih: "first_max f (x # xs) = Some (foldl ?pick x xs)" .
    have "\<not> ?Q (b # x # xs) b" using True by auto
    then have "first_max f (b # x # xs) = find (?Q (b # x # xs)) (x # xs)"
      unfolding first_max_def by (rule find_Cons_no [of "?Q (b # x # xs)" b "x # xs"])
    also have "\<dots> = find (?Q (x # xs)) (x # xs)"
    proof (rule find_cong [OF refl])
      fix z
      assume z: "z \<in> set (x # xs)"
      show "?Q (b # x # xs) z = ?Q (x # xs) z"
      proof
        assume "?Q (b # x # xs) z"
        then show "?Q (x # xs) z" by simp
      next
        assume q: "?Q (x # xs) z"
        then have "\<not> js_lt (f z) (f x)" by simp
        with True have "\<not> js_lt (f z) (f b)" using js_lt_trans by blast
        with q show "?Q (b # x # xs) z" by simp
      qed
    qed
    also have "\<dots> = first_max f (x # xs)" unfolding first_max_def ..
    finally show ?thesis using True ih by simp
  next
    case False
    from Cons.prems have "\<forall>y\<in>set (b # xs). f y \<noteq> NaN" by simp
    from Cons.IH [OF this]
    have ih: "first_max f (b # xs) = Some (foldl ?pick b xs)" .
    have "first_max f (b # x # xs) = first_max f (b # xs)"
    proof (cases "?Q (b # x # xs) b")
      case True
      then have q': "?Q (b # xs) b" by simp
      show ?thesis unfolding first_max_def
        using find_Cons_yes [of "?Q (b # x # xs)" b "x # xs", OF True]
          find_Cons_yes [of "?Q (b # xs)" b xs, OF q'] by (simp only:)
    next
      case nq: False
      with False obtain y where y: "y \<in> set xs" and exceeds: "js_lt (f b) (f y)"
        by (auto simp: js_lt_irrefl)
      then have nq': "\<not> ?Q (b # xs) b" by auto
      from y nxs have ny: "f y \<noteq> NaN" by blast
      have "js_lt (f x) (f y)"
      proof (rule ccontr)
        assume "\<not> js_lt (f x) (f y)"
        from js_lt_neg_trans [OF nb nx ny False this] exceeds show False by simp
      qed
      with y have nqx: "\<not> ?Q (b # x # xs) x" by auto
      have "first_max f (b # x # xs) = find (?Q (b # x # xs)) xs"
        unfolding first_max_def
        using find_Cons_no [of "?Q (b # x # xs)" b "x # xs", OF nq]
          find_Cons_no [of "?Q (b # x # xs)" x xs, OF nqx] by (simp only:)
      also have "\<dots> = find (?Q (b # xs)) xs"
      proof (rule find_cong [OF refl])
        fix z
        assume z: "z \<in> set xs"
        with nxs have nz: "f z \<noteq> NaN" by blast
        show "?Q (b # x # xs) z = ?Q (b # xs) z"
        proof
          assume "?Q (b # x # xs) z"
          then show "?Q (b # xs) z" by simp
        next
          assume q: "?Q (b # xs) z"
          then have "\<not> js_lt (f z) (f b)" by simp
          from js_lt_neg_trans [OF nz nb nx this False] q
          show "?Q (b # x # xs) z" by simp
        qed
      qed
      also have "\<dots> = first_max f (b # xs)"
        unfolding first_max_def
        using find_Cons_no [of "?Q (b # xs)" b xs, OF nq'] by (simp only:)
      finally show ?thesis .
    qed
    with False ih show ?thesis by simp
  qed
qed

subsection \<open>The candidates and their order after the sort\<close>









lemma map_filter_Cons:
  "List.map_filter f (x # xs) = (case f x of None \<Rightarrow> List.map_filter f xs | Some y \<Rightarrow> y # List.map_filter f xs)"
  by (simp add: List.map_filter_def split: option.splits)













section \<open>The category suggester: the scoring rule\<close>

lemma toLowerCase_char_idem: "toLowerCase_char (toLowerCase_char c) = toLowerCase_char c"
proof (cases c)
  case (Char b0 b1 b2 b3 b4 b5 b6 b7)
  show ?thesis unfolding Char
    by (cases b0; cases b1; cases b2; cases b3; cases b4; cases b5; cases b6; cases b7;
        simp add: toLowerCase_char_def set_bit5_def Let_def)
qed

lemma normalizeText_alt: "normalizeText v = concat (map (\<lambda>c. norm_char (toLowerCase_char c)) v)"
  by (simp add: normalizeText_def toLowerCase_def norm_char_def comp_def)

lemma normalizeText_append: "normalizeText (a @ b) = normalizeText a @ normalizeText b"
  by (simp add: normalizeText_alt)

lemma normalizeText_Nil: "normalizeText [] = []"
  by (simp add: normalizeText_alt)

lemma normalizeText_Cons: "normalizeText (c # s) = norm_char (toLowerCase_char c) @ normalizeText s"
  by (simp add: normalizeText_alt)

lemma norm_char_fixed: "normalizeText (norm_char (toLowerCase_char c)) = norm_char (toLowerCase_char c)"
proof (cases c)
  case (Char b0 b1 b2 b3 b4 b5 b6 b7)
  show ?thesis unfolding Char
    by (cases b0; cases b1; cases b2; cases b3; cases b4; cases b5; cases b6; cases b7;
        simp add: normalizeText_Cons normalizeText_Nil norm_char_def toLowerCase_char_def set_bit5_def Let_def)
qed

lemma normalizeText_idem: "normalizeText (normalizeText s) = normalizeText s"
  by (induction s) (simp_all add: normalizeText_Nil normalizeText_Cons normalizeText_append norm_char_fixed)

lemma normalizeText_space: "normalizeText '' '' = '' ''"
  by (simp add: normalizeText_Cons normalizeText_Nil norm_char_def toLowerCase_char_def set_bit5_def Let_def)

lemma tokenise_reference_words:
  "tokenise (normalizeText (category_name c) @ '' '' @
          normalizeText (case category_description c of None \<Rightarrow> [] | Some d \<Rightarrow> d)) = reference_words c"
  by (simp only: tokenise_def reference_words_def normalizeText_append normalizeText_idem normalizeText_space)

lemma nonneg_number_not_NaN: "nonneg_number n \<Longrightarrow> n \<noteq> NaN"
  by (auto simp: nonneg_number_def)

lemma round64_nonneg_number: "0 \<le> x \<Longrightarrow> nonneg_number (round64 x)"
  using round64_nonneg [of x] by (simp add: nonneg_number_def)

lemma js_add_nonneg:
  assumes "nonneg_number a" and "nonneg_number b"
  shows "nonneg_number (js_add a b)"
proof -
  from assms consider (ff) x y where "a = Fin x" "b = Fin y" "0 \<le> x" "0 \<le> y"
    | (pf) "a = PInf" "b \<noteq> NaN" "b \<noteq> NInf" | (fp) x where "a = Fin x" "b = PInf"
    by (auto simp: nonneg_number_def)
  then show ?thesis
  proof cases
    case ff
    then have "0 \<le> x + y" by simp
    from round64_nonneg_number [OF this] ff show ?thesis by simp
  next
    case pf
    then show ?thesis by (cases b) (simp_all add: nonneg_number_def)
  next
    case fp
    then show ?thesis by (simp add: nonneg_number_def)
  qed
qed

lemma reference_points_nonneg: "nonneg_number (reference_points w)"
proof -
  have d: "nonneg_number (js_div (Fin (of_nat (length w))) (Fin 5))"
    by (simp add: round64_nonneg_number)
  have one: "nonneg_number (Fin 1)" by (simp add: nonneg_number_def)
  from js_add_nonneg [OF one d]
  have a: "nonneg_number (js_add (Fin 1) (js_div (Fin (of_nat (length w))) (Fin 5)))" .
  have four: "nonneg_number (Fin 4)" by (simp add: nonneg_number_def)
  from a four nonneg_number_not_NaN [OF a] show ?thesis
    by (simp add: reference_points_def js_min_def)
qed

lemma foldl_js_add_nonneg:
  "nonneg_number a \<Longrightarrow> \<forall>n\<in>set ns. nonneg_number n \<Longrightarrow> nonneg_number (foldl js_add a ns)"
  by (induction ns arbitrary: a) (simp_all add: js_add_nonneg)

lemma reference_score_nonneg: "nonneg_number (reference_score haystack c)"
proof -
  have three: "nonneg_number (Fin 3)" by (simp add: nonneg_number_def)
  have zero: "nonneg_number (Fin 0)" by (simp add: nonneg_number_def)
  show ?thesis unfolding reference_score_def js_sum_def
    by (rule foldl_js_add_nonneg [OF zero]) (auto intro: reference_points_nonneg three)
qed

lemma foldl_keyword_step:
  "foldl (keyword_step haystack) a ws
   = foldl js_add a (map reference_points (filter (str_includes haystack) ws))"
  by (induction ws arbitrary: a) (simp_all add: keyword_step_def reference_points_def)

lemma foldl_hint_step:
  "foldl (hint_step haystack (normalizeText (category_name c))) a hs
   = foldl js_add a (map (\<lambda>h. Fin 3) (filter (reference_hint haystack c) hs))"
  by (induction hs arbitrary: a) (simp_all add: hint_step_def reference_hint_def list_ex_iff)

lemma category_score_reference: "category_score haystack c = reference_score haystack c"
  by (simp only: category_score_def Let_def tokenise_reference_words foldl_keyword_step
      foldl_hint_step reference_score_def js_sum_def foldl_append)

lemma suggest_loop_running:
  "suggest_loop haystack categories (Some (category_id b, reference_score haystack b))
   = (let w = foldl (better haystack) b (filter is_active categories)
      in Some (category_id w, reference_score haystack w))"
proof (induction categories arbitrary: b)
  case Nil
  show ?case by simp
next
  case (Cons x xs)
  show ?case
  proof (cases "is_active x")
    case False
    with Cons.IH [of b] show ?thesis by simp
  next
    case True
    show ?thesis
    proof (cases "js_lt (reference_score haystack b) (reference_score haystack x)")
      case lt: True
      with True Cons.IH [of x] show ?thesis
        by (simp add: category_score_reference js_gt_def better_def)
    next
      case lt: False
      with True Cons.IH [of b] show ?thesis
        by (simp add: category_score_reference js_gt_def better_def)
    qed
  qed
qed

lemma suggest_loop_first_max:
  "suggest_loop haystack categories None
   = map_option (\<lambda>c. (category_id c, reference_score haystack c))
       (first_max (reference_score haystack) (filter is_active categories))"
proof (induction categories)
  case Nil
  show ?case by (simp add: first_max_def)
next
  case (Cons x xs)
  show ?case
  proof (cases "is_active x")
    case False
    with Cons.IH show ?thesis by simp
  next
    case True
    have "\<forall>y\<in>set (x # filter is_active xs). reference_score haystack y \<noteq> NaN"
      using reference_score_nonneg nonneg_number_not_NaN by blast
    from first_max_running [OF this]
    have "first_max (reference_score haystack) (x # filter is_active xs)
          = Some (foldl (better haystack) x (filter is_active xs))"
      unfolding better_def [abs_def] .
    with True suggest_loop_running [of haystack xs x] show ?thesis
      by (simp add: category_score_reference Let_def)
  qed
qed

lemma str_includes_Nil: "str_includes [] k = (k = [])"
  by simp

lemma reference_score_empty: "reference_score [] c = Fin 0"
proof -
  have w: "filter (str_includes []) (reference_words c) = []"
    by (auto simp: reference_words_def filter_empty_conv)
  have h: "filter (reference_hint [] c) categoryHints = []"
    by (simp add: reference_hint_def categoryHints_def)
  show ?thesis by (simp add: reference_score_def js_sum_def w h)
qed

text \<open>
  C5. For every text and every list of categories the suggester returns what the
  scoring rule gives. The score of a category is the sum, in this order, of
  \<open>min(4, 1 + wordLength / 5)\<close> for each word of more than two characters of its
  normalized name and description that occurs in the normalized text, and of 3 for each
  hint entry one of whose match terms occurs in the normalized name and one of whose
  keyword terms occurs in the normalized text. The suggestion is the first active
  category of the list whose score no active category exceeds, so on a tie the category
  scored first, and it is given only when that score is at least 2.
\<close>

theorem suggestCategoryId_reference:
  "suggestCategoryId txt categories = reference_suggestion txt categories"
proof (cases "txt = [] \<or> categories = []")
  case True
  then show ?thesis
  proof
    assume "txt = []"
    then show ?thesis
      by (simp add: suggestCategoryId_def reference_suggestion_def normalizeText_Nil
          reference_score_empty js_ge_def js_le_def split: option.splits)
  next
    assume "categories = []"
    then show ?thesis
      by (simp add: suggestCategoryId_def reference_suggestion_def first_max_def)
  qed
next
  case False
  then show ?thesis
    by (simp add: suggestCategoryId_def reference_suggestion_def suggest_loop_first_max Let_def
        split: option.splits)
qed

theorem suggestCategoryId_reference_witness:
  "suggestCategoryId ''MIGROS Einkauf'' example_categories = Some 2
   \<and> map (reference_score ''migros einkauf'') example_categories
      = [round64 (27 / 5), round64 (27 / 5), Fin 0, Fin 3]
   \<and> suggestCategoryId ''Zutaten'' example_categories = Some 2
   \<and> map (reference_score ''zutaten'') example_categories
      = [Fin 0, round64 (12 / 5), Fin 0, round64 (12 / 5)]
   \<and> suggestCategoryId ''und'' example_categories = None
   \<and> map (reference_score ''und'') example_categories = [Fin 0, round64 (8 / 5), Fin 0, Fin 0]
   \<and> reference_points ''krankenversicherungen'' = Fin 4"
proof -
  have a: "reference_suggestion ''MIGROS Einkauf'' example_categories = Some 2" by code_simp
  have b: "reference_suggestion ''Zutaten'' example_categories = Some 2" by code_simp
  have c: "reference_suggestion ''und'' example_categories = None" by code_simp
  have sa: "map (reference_score ''migros einkauf'') example_categories
      = [round64 (27 / 5), round64 (27 / 5), Fin 0, Fin 3]" by code_simp
  have sb: "map (reference_score ''zutaten'') example_categories
      = [Fin 0, round64 (12 / 5), Fin 0, round64 (12 / 5)]" by code_simp
  have sc: "map (reference_score ''und'') example_categories = [Fin 0, round64 (8 / 5), Fin 0, Fin 0]"
    by code_simp
  have p: "reference_points ''krankenversicherungen'' = Fin 4" by code_simp
  from suggestCategoryId_reference [of "''MIGROS Einkauf''" example_categories] a
  have a': "suggestCategoryId ''MIGROS Einkauf'' example_categories = Some 2" by (simp only:)
  from suggestCategoryId_reference [of "''Zutaten''" example_categories] b
  have b': "suggestCategoryId ''Zutaten'' example_categories = Some 2" by (simp only:)
  from suggestCategoryId_reference [of "''und''" example_categories] c
  have c': "suggestCategoryId ''und'' example_categories = None" by (simp only:)
  from a' b' c' sa sb sc p show ?thesis by (simp only: simp_thms)
qed

section \<open>The locale parser\<close>






























end
